theory Spec2Isabelle
  imports Complex_Main "HOL-Library.Word" "HOL-Library.Monad_Syntax"
begin

section \<open>JavaScript strings\<close>

text \<open>
  A JavaScript string is a finite sequence of UTF-16 code units.  \<open>+\<close> on strings is
  list append, the empty string is the only falsy string, and \<open>String.prototype.trim\<close>
  removes the ECMAScript \<open>WhiteSpace\<close> and \<open>LineTerminator\<close> code units from both ends.
\<close>

type_synonym js_string = "16 word list"

definition isWhiteSpace :: "16 word \<Rightarrow> bool" where
  "isWhiteSpace c \<longleftrightarrow>
     c = 0x0009 \<or> c = 0x000A \<or> c = 0x000B \<or> c = 0x000C \<or> c = 0x000D \<or> c = 0x0020 \<or>
     c = 0x00A0 \<or> c = 0x1680 \<or> (0x2000 \<le> c \<and> c \<le> 0x200A) \<or> c = 0x2028 \<or>
     c = 0x2029 \<or> c = 0x202F \<or> c = 0x205F \<or> c = 0x3000 \<or> c = 0xFEFF"

definition trim :: "js_string \<Rightarrow> js_string" where
  "trim s = rev (dropWhile isWhiteSpace (rev (dropWhile isWhiteSpace s)))"

definition truthy :: "js_string \<Rightarrow> bool" where
  "truthy s \<longleftrightarrow> s \<noteq> []"

section \<open>Data model (types/index.ts)\<close>

datatype Role = User | Assistant | System

record Message =
  id_field :: int
  conversation_id :: int
  role :: Role
  content :: js_string
  audio_path :: "js_string option"
  token_count :: int
  created_at :: js_string

datatype Status = transcribing | thinking | synthesizing

text \<open>The union \<open>WSMessage\<close>: one constructor per member interface, in declaration order.\<close>

datatype WSMessage =
    WSUserMessage Message
  | WSAssistantChunk js_string
  | WSAssistantComplete Message
  | WSStatus Status
  | WSTranscription js_string
  | WSAudio js_string js_string
  | WSError js_string

text \<open>The discriminant field \<open>type\<close> of each member, as ASCII text.\<close>

fun type_tag :: "WSMessage \<Rightarrow> string" where
  "type_tag (WSUserMessage _) = ''user_message''"
| "type_tag (WSAssistantChunk _) = ''assistant_chunk''"
| "type_tag (WSAssistantComplete _) = ''assistant_complete''"
| "type_tag (WSStatus _) = ''status''"
| "type_tag (WSTranscription _) = ''transcription''"
| "type_tag (WSAudio _ _) = ''assistant_audio''"
| "type_tag (WSError _) = ''error''"

section \<open>The conversation store (useConversationStore)\<close>

record ConversationGroup =
  group_ident :: int
  group_name :: js_string
  order_index :: int
  group_created_at :: js_string

record Conversation =
  conversation_ident :: int
  user_id :: int
  group_id :: "int option"
  title :: js_string
  tags :: "js_string list"
  summary :: "js_string option"
  is_archived :: bool
  conversation_created_at :: js_string
  updated_at :: js_string
  message_count :: "int option"

text \<open>
  The store's state.  \<open>fetchRequests\<close> counts the calls of \<open>fetchConversations\<close> that
  have been started (each one sets \<open>isLoading\<close> before its first await); the other
  fields are those of \<open>ConversationState\<close>.
\<close>

record ConversationState =
  conversations :: "Conversation list"
  groups :: "ConversationGroup list"
  currentConversation :: "Conversation option"
  messages :: "Message list"
  isLoading :: bool
  searchQuery :: js_string
  selectedGroupId :: "int option"
  fetchRequests :: nat

definition addMessage :: "Message \<Rightarrow> ConversationState \<Rightarrow> ConversationState" where
  "addMessage message state = state\<lparr>messages := messages state @ [message]\<rparr>"

definition updateLastMessage :: "js_string \<Rightarrow> ConversationState \<Rightarrow> ConversationState" where
  "updateLastMessage c state =
     (let msgs = messages state in
      state\<lparr>messages :=
        (if length msgs > 0 then
           (let lastMessage = msgs ! (length msgs - 1) in
            if role lastMessage = Assistant
            then msgs[length msgs - 1 := lastMessage\<lparr>content := c\<rparr>]
            else msgs)
         else msgs)\<rparr>)"

text \<open>The synchronous part of \<open>fetchConversations\<close>: \<open>set({ isLoading: true })\<close>.\<close>

definition fetchConversations :: "ConversationState \<Rightarrow> ConversationState" where
  "fetchConversations state = state\<lparr>isLoading := True, fetchRequests := Suc (fetchRequests state)\<rparr>"

section \<open>The chat view (ChatView.tsx)\<close>

subsection \<open>The socket behind \<open>wsRef\<close>\<close>

text \<open>
  \<open>WebSocket.send\<close> throws \<open>InvalidStateError\<close> while the socket is connecting, queues
  the data when it is open, and discards it when it is closing or closed.  \<open>sent\<close> is the
  list of \<open>content\<close> values of the frames \<open>{content}\<close> handed to an open socket, oldest
  first.
\<close>

datatype ReadyState = CONNECTING | OPEN | CLOSING | CLOSED

datatype DOMException = InvalidStateError | QuotaExceededError | SecurityError

record WebSocket =
  readyState :: ReadyState
  sent :: "js_string list"

definition ws_send :: "js_string \<Rightarrow> WebSocket \<Rightarrow> DOMException + WebSocket" where
  "ws_send data ws =
     (case readyState ws of
        CONNECTING \<Rightarrow> Inl InvalidStateError
      | OPEN \<Rightarrow> Inr (ws\<lparr>sent := sent ws @ [data]\<rparr>)
      | CLOSING \<Rightarrow> Inr ws
      | CLOSED \<Rightarrow> Inr ws)"

subsection \<open>Component state and handlers\<close>

text \<open>
  The component's \<open>useState\<close> cells and refs, the store it reads, the lines written by
  \<open>console.error('Chat error:', ...)\<close> and the exceptions that escaped an event handler.
\<close>

record ChatView =
  inputValue :: js_string
  isStreaming :: bool
  streamingContent :: js_string
  wsRef :: "WebSocket option"
  store :: ConversationState
  consoleErrors :: "js_string list"
  uncaught :: "DOMException list"

text \<open>
  \<open>wsRef.current.send(JSON.stringify({ content }))\<close>, after the guard has established that
  \<open>wsRef.current\<close> is not null.  The first component is the exception the statement
  throws, if it throws.
\<close>

definition send_content :: "js_string \<Rightarrow> ChatView \<Rightarrow> DOMException option \<times> ChatView" where
  "send_content c v =
     (case wsRef v of
        None \<Rightarrow> (None, v)
      | Some ws \<Rightarrow>
          (case ws_send c ws of
             Inl e \<Rightarrow> (Some e, v)
           | Inr ws' \<Rightarrow> (None, v\<lparr>wsRef := Some ws'\<rparr>)))"

text \<open>
  The \<open>switch (data.type)\<close> of \<open>handleWSMessage\<close>.  It has four \<open>case\<close> labels and no
  \<open>default\<close>: for the other members of the union no statement runs.
\<close>

fun handleWSMessage :: "WSMessage \<Rightarrow> ChatView \<Rightarrow> ChatView" where
  "handleWSMessage (WSUserMessage message) v = v\<lparr>store := addMessage message (store v)\<rparr>"
| "handleWSMessage (WSAssistantChunk c) v = v\<lparr>streamingContent := streamingContent v @ c\<rparr>"
| "handleWSMessage (WSAssistantComplete message) v =
     v\<lparr>isStreaming := False, streamingContent := [],
       store := fetchConversations (addMessage message (store v))\<rparr>"
| "handleWSMessage (WSError message) v =
     v\<lparr>consoleErrors := consoleErrors v @ [message], isStreaming := False\<rparr>"
| "handleWSMessage (WSStatus _) v = v"
| "handleWSMessage (WSTranscription _) v = v"
| "handleWSMessage (WSAudio _ _) v = v"

text \<open>The label of the \<open>switch\<close> that a message selects, if any.\<close>

datatype CaseLabel = case_user_message | case_assistant_chunk | case_assistant_complete | case_error

fun matched_case :: "WSMessage \<Rightarrow> CaseLabel option" where
  "matched_case (WSUserMessage _) = Some case_user_message"
| "matched_case (WSAssistantChunk _) = Some case_assistant_chunk"
| "matched_case (WSAssistantComplete _) = Some case_assistant_complete"
| "matched_case (WSError _) = Some case_error"
| "matched_case _ = None"

text \<open>
  The outbound event kinds as the specification's external-interface section lists them.
\<close>

definition spec_event_kinds :: "string list" where
  "spec_event_kinds =
     [''user_message'', ''assistant_chunk'', ''assistant_complete'', ''status'',
      ''assistant_audio'', ''error'']"

text \<open>
  \<open>sendMessage\<close> is memoised on \<open>[inputValue, isStreaming]\<close> and is called from the
  click and key handlers of the current render, so the \<open>inputValue\<close> and \<open>isStreaming\<close>
  it reads are those of the state it is called in.  Nothing on that call path has a
  \<open>catch\<close>: an exception of its last statement escapes the event handler.
\<close>

definition sendMessage :: "ChatView \<Rightarrow> ChatView" where
  "sendMessage v =
     (if \<not> truthy (trim (inputValue v)) \<or> wsRef v = None \<or> isStreaming v then v
      else
        (let c = trim (inputValue v) in
         case send_content c (v\<lparr>inputValue := [], isStreaming := True, streamingContent := []\<rparr>) of
           (None, v') \<Rightarrow> v'
         | (Some e, v') \<Rightarrow> v'\<lparr>uncaught := uncaught v' @ [e]\<rparr>))"

text \<open>
  \<open>handleVoiceMessage\<close> is memoised on \<open>[isStreaming]\<close>: each render with a new value of
  the flag makes a new callback in which \<open>isStreaming\<close> is that render's constant (the
  first argument here).  \<open>wsRef.current\<close> and the state setters act on the state the
  callback is called in.  The callback is handed to the recorder as \<open>onTranscription\<close>,
  which may call it later than the render that made it, and which is the one to see an
  exception of its last statement (the first component of the result).
\<close>

definition handleVoiceMessage ::
  "bool \<Rightarrow> js_string \<Rightarrow> ChatView \<Rightarrow> DOMException option \<times> ChatView" where
  "handleVoiceMessage isStreaming_of_render text v =
     (if wsRef v = None \<or> isStreaming_of_render then (None, v)
      else send_content text (v\<lparr>isStreaming := True, streamingContent := []\<rparr>))"

subsection \<open>What the view renders\<close>

text \<open>
  The streaming bubble is rendered under \<open>isStreaming && streamingContent\<close> and shows
  \<open>streamingContent\<close>; the "thinking" indicator under \<open>isStreaming && !streamingContent\<close>.
\<close>

definition streamingBubble :: "ChatView \<Rightarrow> js_string option" where
  "streamingBubble v =
     (if isStreaming v \<and> truthy (streamingContent v) then Some (streamingContent v) else None)"

definition thinkingIndicator :: "ChatView \<Rightarrow> bool" where
  "thinkingIndicator v \<longleftrightarrow> isStreaming v \<and> \<not> truthy (streamingContent v)"

subsection \<open>A run of chunk events\<close>

definition receiveChunks :: "js_string list \<Rightarrow> ChatView \<Rightarrow> ChatView" where
  "receiveChunks cs v = foldl (\<lambda>v' c. handleWSMessage (WSAssistantChunk c) v') v cs"

section \<open>The auth token store (authService)\<close>

text \<open>
  \<open>localStorage\<close> maps keys to string values; the service uses the key \<open>'token'\<close>.
  Two decisions are the user agent's.  Reading the property \<open>localStorage\<close> throws
  \<open>SecurityError\<close> when the page is not allowed to persist data (then every method of
  the service that touches the storage throws).  And \<open>setItem\<close> throws
  \<open>QuotaExceededError\<close>, leaving the storage as it was, when the new value cannot be
  set: the quota is exceeded or storage is disabled for the site.  \<open>accepts s k v\<close> tells
  whether the user agent stores \<open>v\<close> under \<open>k\<close> when the storage holds \<open>s\<close>.
\<close>

type_synonym Storage = "js_string \<rightharpoonup> js_string"

record UserAgent =
  accessible :: bool
  accepts :: "Storage \<Rightarrow> js_string \<Rightarrow> js_string \<Rightarrow> bool"

definition token_key :: js_string where
  "token_key = [0x74, 0x6F, 0x6B, 0x65, 0x6E]"

text \<open>
  The methods return the exception thrown, if any, and the storage after the call; a
  method that returns a value returns it in place of the exception.
\<close>

definition logout :: "UserAgent \<Rightarrow> Storage \<Rightarrow> DOMException option \<times> Storage" where
  "logout ua localStorage =
     (if accessible ua then (None, localStorage(token_key := None))
      else (Some SecurityError, localStorage))"

definition getToken :: "UserAgent \<Rightarrow> Storage \<Rightarrow> DOMException + js_string option" where
  "getToken ua localStorage =
     (if accessible ua then Inr (localStorage token_key) else Inl SecurityError)"

definition setToken :: "UserAgent \<Rightarrow> js_string \<Rightarrow> Storage \<Rightarrow> DOMException option \<times> Storage" where
  "setToken ua token localStorage =
     (if accessible ua then
        (if accepts ua localStorage token_key token
         then (None, localStorage(token_key \<mapsto> token))
         else (Some QuotaExceededError, localStorage))
      else (Some SecurityError, localStorage))"

text \<open>\<open>!!this.getToken()\<close>: \<open>null\<close> and the empty string are falsy.\<close>

definition isAuthenticated :: "UserAgent \<Rightarrow> Storage \<Rightarrow> DOMException + bool" where
  "isAuthenticated ua localStorage =
     (case getToken ua localStorage of
        Inl e \<Rightarrow> Inl e
      | Inr None \<Rightarrow> Inr False
      | Inr (Some t) \<Rightarrow> Inr (truthy t))"

text \<open>
  A user agent that grants access and stores a value when key and value together have at
  most \<open>quota\<close> code units.
\<close>

definition quotaAgent :: "nat \<Rightarrow> UserAgent" where
  "quotaAgent quota =
     \<lparr>accessible = True, accepts = (\<lambda>s k v. length k + length v \<le> quota)\<rparr>"

definition blockedAgent :: UserAgent where
  "blockedAgent = \<lparr>accessible = False, accepts = (\<lambda>s k v. False)\<rparr>"

section \<open>Initial states\<close>

text \<open>The store as \<open>create\<close> initialises it, and the view's \<open>useState\<close>/\<open>useRef\<close> defaults.\<close>

definition initialStore :: ConversationState where
  "initialStore =
     \<lparr>conversations = [], groups = [], currentConversation = None, messages = [],
      isLoading = False, searchQuery = [], selectedGroupId = None, fetchRequests = 0\<rparr>"

definition initialChatView :: ChatView where
  "initialChatView =
     \<lparr>inputValue = [], isStreaming = False, streamingContent = [], wsRef = None,
      store = initialStore, consoleErrors = [], uncaught = []\<rparr>"

section \<open>The voice recorder (VoiceRecorder.tsx)\<close>

subsection \<open>Parsed JSON and the reply of the speech-to-text request\<close>

datatype js_value =
    JNull
  | JBool bool
  | JNumber rat
  | JString js_string
  | JArray "js_value list"
  | JObject "(js_string \<times> js_value) list"

datatype js_exception = TypeError | Error js_string

definition text_key :: js_string where
  "text_key = [0x74, 0x65, 0x78, 0x74]"

text \<open>
  \<open>data.text\<close>: reading a property of \<open>null\<close> throws; an object yields its member (the
  last one of that name, as \<open>JSON.parse\<close> keeps it) or \<open>undefined\<close>; the other parsed
  values have no such property.  \<open>None\<close> stands for \<open>undefined\<close>.
\<close>

fun get_text :: "js_value \<Rightarrow> js_exception + js_value option" where
  "get_text JNull = Inl TypeError"
| "get_text (JObject members) = Inr (map_of (rev members) text_key)"
| "get_text _ = Inr None"

fun truthy_value :: "js_value option \<Rightarrow> bool" where
  "truthy_value None \<longleftrightarrow> False"
| "truthy_value (Some JNull) \<longleftrightarrow> False"
| "truthy_value (Some (JBool b)) \<longleftrightarrow> b"
| "truthy_value (Some (JNumber n)) \<longleftrightarrow> n \<noteq> 0"
| "truthy_value (Some (JString s)) \<longleftrightarrow> truthy s"
| "truthy_value (Some (JArray _)) \<longleftrightarrow> True"
| "truthy_value (Some (JObject _)) \<longleftrightarrow> True"

text \<open>\<open>x.trim()\<close> on a truthy parsed value: only a string has a callable \<open>trim\<close>.\<close>

fun call_trim :: "js_value option \<Rightarrow> js_exception + js_string" where
  "call_trim (Some (JString s)) = Inr (trim s)"
| "call_trim _ = Inl TypeError"

text \<open>
  What the environment answers while the \<open>try\<close> block runs: the conversion to WAV may
  throw, the request may be rejected, the response may be not \<open>ok\<close>, its body may fail to
  parse, or it parses to a value.
\<close>

datatype SttReply =
    ConvertToWavFails
  | FetchFails
  | ResponseNotOk
  | JsonFails
  | ResponseJson js_value

subsection \<open>Recorder state and handlers\<close>

datatype RecordingStatus = idle | recording | processing

type_synonym Blob = "8 word list"

record VoiceRecorder =
  status :: RecordingStatus
  error :: "js_string option"
  chunksRef :: "Blob list"
  streamRef :: bool
  mediaRecorderRef :: bool

definition initialVoiceRecorder :: VoiceRecorder where
  "initialVoiceRecorder =
     \<lparr>status = idle, error = None, chunksRef = [], streamRef = False, mediaRecorderRef = False\<rparr>"

definition no_speech_message :: js_string where
  "no_speech_message = [0x672A, 0x68C0, 0x6D4B, 0x5230, 0x8BED, 0x97F3]"

definition stt_failed_message :: js_string where
  "stt_failed_message = [0x8BED, 0x97F3, 0x8BC6, 0x522B, 0x5931, 0x8D25]"

definition microphone_message :: js_string where
  "microphone_message = [0x65E0, 0x6CD5, 0x8BBF, 0x95EE, 0x9EA6, 0x514B, 0x98CE]"

text \<open>
  \<open>startRecording\<close> is an async function.  Up to its first \<open>await\<close> it clears the error
  and the chunks and asks for the microphone.
\<close>

definition startRecording_begin :: "VoiceRecorder \<Rightarrow> VoiceRecorder" where
  "startRecording_begin r = r\<lparr>error := None, chunksRef := []\<rparr>"

text \<open>
  How the rest of its \<open>try\<close> block ends: \<open>getUserMedia\<close> is rejected; or the stream is
  granted and \<open>new MediaRecorder\<close> throws (the mime type is not supported); or the
  recorder is made and its \<open>start\<close> throws; or the recording starts.
\<close>

datatype MicrophoneReply = AccessDenied | RecorderFails | StartFails | Started

text \<open>
  The rest of \<open>startRecording\<close>, once the request for the microphone is settled.
  \<open>streamRef.current\<close> is assigned before the recorder is constructed and
  \<open>mediaRecorderRef.current\<close> before the recorder is started; the \<open>catch\<close> releases
  neither.
\<close>

definition startRecording_finish :: "MicrophoneReply \<Rightarrow> VoiceRecorder \<Rightarrow> VoiceRecorder" where
  "startRecording_finish reply r =
     (case reply of
        AccessDenied \<Rightarrow> r\<lparr>error := Some microphone_message, status := idle\<rparr>
      | RecorderFails \<Rightarrow>
          r\<lparr>streamRef := True, error := Some microphone_message, status := idle\<rparr>
      | StartFails \<Rightarrow>
          r\<lparr>streamRef := True, mediaRecorderRef := True,
            error := Some microphone_message, status := idle\<rparr>
      | Started \<Rightarrow> r\<lparr>streamRef := True, mediaRecorderRef := True, status := recording\<rparr>)"

text \<open>
  The whole of \<open>startRecording\<close>, when nothing else happens while the request for the
  microphone is pending.
\<close>

definition startRecording :: "MicrophoneReply \<Rightarrow> VoiceRecorder \<Rightarrow> VoiceRecorder" where
  "startRecording reply r = startRecording_finish reply (startRecording_begin r)"

definition ondataavailable :: "Blob \<Rightarrow> VoiceRecorder \<Rightarrow> VoiceRecorder" where
  "ondataavailable blob r =
     (if length blob > 0 then r\<lparr>chunksRef := chunksRef r @ [blob]\<rparr> else r)"

text \<open>How the \<open>try\<close> block of \<open>onstop\<close> ends.\<close>

datatype TryResult = Thrown | Transcribed js_string | NoSpeech

fun try_block :: "SttReply \<Rightarrow> TryResult" where
  "try_block ConvertToWavFails = Thrown"
| "try_block FetchFails = Thrown"
| "try_block ResponseNotOk = Thrown"
| "try_block JsonFails = Thrown"
| "try_block (ResponseJson data) =
     (case get_text data of
        Inl _ \<Rightarrow> Thrown
      | Inr t \<Rightarrow>
          if truthy_value t then
            (case call_trim t of
               Inl _ \<Rightarrow> Thrown
             | Inr s \<Rightarrow> if truthy s then Transcribed s else NoSpeech)
          else NoSpeech)"

text \<open>
  \<open>mediaRecorder.onstop\<close> is an async function.  Up to its first \<open>await\<close> it releases
  the stream and, when no chunk was recorded, sets the status to idle and returns;
  otherwise it sets the status to processing and the speech-to-text request starts.
\<close>

definition onstop_begin :: "VoiceRecorder \<Rightarrow> VoiceRecorder" where
  "onstop_begin r0 =
     (let r = r0\<lparr>streamRef := False\<rparr> in
      if length (chunksRef r) = 0 then r\<lparr>status := idle\<rparr>
      else r\<lparr>status := processing\<rparr>)"

text \<open>
  The rest of \<open>onstop\<close>, once the environment has answered: the end of the \<open>try\<close> block,
  its \<open>catch\<close> and its \<open>finally\<close>.  \<open>onTranscription\<close> is the callback in the closure of
  \<open>onstop\<close>: \<open>onstop\<close> is created inside \<open>startRecording\<close>, which is memoised on
  \<open>[onTranscription]\<close>, so it is the \<open>onTranscription\<close> prop of the render in which the
  recording was started.  It acts on the parent's state \<open>p\<close> and is called inside the
  \<open>try\<close> block: when it throws, the \<open>catch\<close> reports the failure of the recognition, as
  for every other exception of the block, and what the callback did to the parent's
  state before it threw stays done.
\<close>

definition onstop_finish ::
  "(js_string \<Rightarrow> 'p \<Rightarrow> 'e option \<times> 'p) \<Rightarrow> SttReply \<Rightarrow> VoiceRecorder \<times> 'p
     \<Rightarrow> VoiceRecorder \<times> 'p" where
  "onstop_finish onTranscription reply rp =
     (let r = fst rp; p = snd rp in
      case try_block reply of
        Transcribed s \<Rightarrow>
          (case onTranscription s p of
             (None, p') \<Rightarrow> (r\<lparr>status := idle\<rparr>, p')
           | (Some e, p') \<Rightarrow> (r\<lparr>error := Some stt_failed_message, status := idle\<rparr>, p'))
      | NoSpeech \<Rightarrow> (r\<lparr>error := Some no_speech_message, status := idle\<rparr>, p)
      | Thrown \<Rightarrow> (r\<lparr>error := Some stt_failed_message, status := idle\<rparr>, p))"

text \<open>The whole of \<open>onstop\<close>, when nothing else happens while the request is pending.\<close>

definition onstop ::
  "(js_string \<Rightarrow> 'p \<Rightarrow> 'e option \<times> 'p) \<Rightarrow> SttReply \<Rightarrow> VoiceRecorder \<times> 'p
     \<Rightarrow> VoiceRecorder \<times> 'p" where
  "onstop onTranscription reply rp =
     (let r = onstop_begin (fst rp) in
      if length (chunksRef r) = 0 then (r, snd rp)
      else onstop_finish onTranscription reply (r, snd rp))"

section \<open>The client: the chat view with its voice recorder\<close>

text \<open>
  \<open>ChatView\<close> renders \<open><VoiceRecorder onTranscription={handleVoiceMessage}
  disabled={isStreaming} />\<close>.  The client's state is the view's and the recorder's,
  together with what the browser holds for them:

    \<^item> \<open>pendingStarts\<close>: the calls of \<open>startRecording\<close> that wait for the microphone, oldest
      first.  \<open>startRecording\<close> is memoised on \<open>[onTranscription]\<close>, so each call holds
      the \<open>handleVoiceMessage\<close> of the render it was made in; the entry is the constant
      \<open>isStreaming\<close> of that callback.
    \<^item> \<open>capturedStreaming\<close>: that constant for the media recorder in \<open>mediaRecorderRef\<close>,
      whose \<open>onstop\<close> was created by the call that made it.
    \<^item> \<open>recorderActive\<close>: whether the media recorder in \<open>mediaRecorderRef\<close> is recording.
    \<^item> \<open>strayRecorders\<close>: the media recorders that are recording and that
      \<open>mediaRecorderRef\<close> no longer points to; nothing can stop them, and they deliver
      their data to the same \<open>chunksRef\<close>.
    \<^item> \<open>pendingStt\<close>: the speech-to-text requests of the stopped recordings that wait
      for their answer, oldest first, each with the constant of its \<open>onstop\<close>.
\<close>

record Client =
  chatView :: ChatView
  recorder :: VoiceRecorder
  pendingStarts :: "bool list"
  capturedStreaming :: bool
  recorderActive :: bool
  strayRecorders :: nat
  pendingStt :: "bool list"

definition initialClient :: Client where
  "initialClient =
     \<lparr>chatView = initialChatView, recorder = initialVoiceRecorder, pendingStarts = [],
      capturedStreaming = False, recorderActive = False, strayRecorders = 0, pendingStt = []\<rparr>"

text \<open>
  What can happen to a mounted client: a frame arrives on the socket; the user edits
  the text box; presses send (or Enter); presses the microphone button; the oldest
  pending request for the microphone is settled; a media recorder delivers data; the
  user releases the button; the oldest pending speech-to-text request is answered.
\<close>

datatype Action =
    Receive WSMessage
  | SetInput js_string
  | Send
  | MouseDown
  | MicrophoneAnswer MicrophoneReply
  | DataAvailable Blob
  | MouseUp
  | SttReturns SttReply

text \<open>
  \<open>handleMouseDown\<close> calls \<open>startRecording\<close> only under \<open>!disabled && status === 'idle'\<close>;
  the call runs up to its \<open>await\<close>, and the status stays idle until the microphone
  answers.  When the answer makes a media recorder, \<open>mediaRecorderRef\<close> is pointed to it;
  the recorder it pointed to before, if that one is still recording, goes astray.

  \<open>handleMouseUp\<close> calls \<open>stopRecording\<close> only under \<open>status === 'recording'\<close>, which
  stops the media recorder in \<open>mediaRecorderRef\<close> (\<open>stop\<close> does nothing on one that is
  not recording); stopping runs \<open>onstop\<close> up to its first \<open>await\<close>, and when chunks were
  recorded a speech-to-text request is pending from then on.  Its answer resumes that
  \<open>onstop\<close>, with the callback it holds.
\<close>

fun step :: "Action \<Rightarrow> Client \<Rightarrow> Client" where
  "step (Receive m) c = c\<lparr>chatView := handleWSMessage m (chatView c)\<rparr>"
| "step (SetInput s) c = c\<lparr>chatView := (chatView c)\<lparr>inputValue := s\<rparr>\<rparr>"
| "step Send c = c\<lparr>chatView := sendMessage (chatView c)\<rparr>"
| "step MouseDown c =
     (if \<not> isStreaming (chatView c) \<and> status (recorder c) = idle
      then c\<lparr>recorder := startRecording_begin (recorder c),
             pendingStarts := pendingStarts c @ [isStreaming (chatView c)]\<rparr>
      else c)"
| "step (MicrophoneAnswer reply) c =
     (case pendingStarts c of
        [] \<Rightarrow> c
      | b # bs \<Rightarrow>
          (let c' = c\<lparr>recorder := startRecording_finish reply (recorder c),
                      pendingStarts := bs\<rparr>;
               stray = (if recorderActive c then Suc (strayRecorders c) else strayRecorders c)
           in case reply of
                AccessDenied \<Rightarrow> c'
              | RecorderFails \<Rightarrow> c'
              | StartFails \<Rightarrow>
                  c'\<lparr>capturedStreaming := b, recorderActive := False, strayRecorders := stray\<rparr>
              | Started \<Rightarrow>
                  c'\<lparr>capturedStreaming := b, recorderActive := True, strayRecorders := stray\<rparr>))"
| "step (DataAvailable blob) c =
     (if recorderActive c \<or> 0 < strayRecorders c
      then c\<lparr>recorder := ondataavailable blob (recorder c)\<rparr>
      else c)"
| "step MouseUp c =
     (if status (recorder c) = recording \<and> mediaRecorderRef (recorder c) \<and> recorderActive c
      then c\<lparr>recorder := onstop_begin (recorder c), recorderActive := False,
             pendingStt := (if length (chunksRef (recorder c)) = 0 then pendingStt c
                            else pendingStt c @ [capturedStreaming c])\<rparr>
      else c)"
| "step (SttReturns reply) c =
     (case pendingStt c of
        [] \<Rightarrow> c
      | b # bs \<Rightarrow>
          (let rp = onstop_finish (handleVoiceMessage b) reply (recorder c, chatView c)
           in c\<lparr>recorder := fst rp, chatView := snd rp, pendingStt := bs\<rparr>))"

text \<open>
  An action submits a turn when it is a send that passes the guard of \<open>sendMessage\<close>, or
  the answer of a pending request with a transcription that passes the guard of the
  callback it is delivered to.
\<close>

fun submits :: "Action \<Rightarrow> Client \<Rightarrow> bool" where
  "submits Send c \<longleftrightarrow>
     truthy (trim (inputValue (chatView c))) \<and> wsRef (chatView c) \<noteq> None \<and> \<not> isStreaming (chatView c)"
| "submits (SttReturns reply) c \<longleftrightarrow>
     (case pendingStt c of
        [] \<Rightarrow> False
      | b # bs \<Rightarrow>
          (case try_block reply of Transcribed s \<Rightarrow> True | NoSpeech \<Rightarrow> False | Thrown \<Rightarrow> False)
          \<and> wsRef (chatView c) \<noteq> None \<and> \<not> b)"
| "submits _ c \<longleftrightarrow> False"

fun run :: "Action list \<Rightarrow> Client \<Rightarrow> Client" where
  "run [] c = c"
| "run (a # as) c = run as (step a c)"

fun no_turn_submitted :: "Action list \<Rightarrow> Client \<Rightarrow> bool" where
  "no_turn_submitted [] c \<longleftrightarrow> True"
| "no_turn_submitted (a # as) c \<longleftrightarrow> \<not> submits a c \<and> no_turn_submitted as (step a c)"

section \<open>The WAV encoder (audioBufferToWav in VoiceRecorder.tsx)\<close>

subsection \<open>Numbers\<close>

text \<open>
  The samples of an \<open>AudioBuffer\<close> are 32-bit floats: \<open>NaN\<close>, the two infinities, or a
  finite value, which is a rational number.  The encoder compares a sample with \<open>-1\<close>,
  \<open>0\<close> and \<open>1\<close> and multiplies a value of the interval \<open>[-1, 1]\<close> by \<open>0x8000\<close> or
  \<open>0x7fff\<close>.  On a 32-bit float (24 significant bits) the 64-bit product with such a
  constant (16 bits) is exact, so the arithmetic of the rationals is the arithmetic the
  code performs.  The two zeros are not distinguished: both are written as \<open>0\<close>.
\<close>

datatype js_number = NaN | PosInfinity | NegInfinity | Finite rat

fun math_min :: "js_number \<Rightarrow> js_number \<Rightarrow> js_number" where
  "math_min NaN _ = NaN"
| "math_min _ NaN = NaN"
| "math_min NegInfinity _ = NegInfinity"
| "math_min _ NegInfinity = NegInfinity"
| "math_min PosInfinity y = y"
| "math_min x PosInfinity = x"
| "math_min (Finite a) (Finite b) = Finite (min a b)"

fun math_max :: "js_number \<Rightarrow> js_number \<Rightarrow> js_number" where
  "math_max NaN _ = NaN"
| "math_max _ NaN = NaN"
| "math_max PosInfinity _ = PosInfinity"
| "math_max _ PosInfinity = PosInfinity"
| "math_max NegInfinity y = y"
| "math_max x NegInfinity = x"
| "math_max (Finite a) (Finite b) = Finite (max a b)"

text \<open>\<open>x < k\<close> and \<open>x * k\<close> for a finite constant \<open>k\<close>.\<close>

fun js_less :: "js_number \<Rightarrow> rat \<Rightarrow> bool" where
  "js_less NaN _ \<longleftrightarrow> False"
| "js_less PosInfinity _ \<longleftrightarrow> False"
| "js_less NegInfinity _ \<longleftrightarrow> True"
| "js_less (Finite a) b \<longleftrightarrow> a < b"

fun js_times :: "js_number \<Rightarrow> rat \<Rightarrow> js_number" where
  "js_times NaN _ = NaN"
| "js_times PosInfinity k = (if k = 0 then NaN else if 0 < k then PosInfinity else NegInfinity)"
| "js_times NegInfinity k = (if k = 0 then NaN else if 0 < k then NegInfinity else PosInfinity)"
| "js_times (Finite a) k = Finite (a * k)"

text \<open>
  \<open>ToInt16\<close> of ECMAScript: \<open>NaN\<close> and the infinities become 0; a finite number is
  truncated towards zero and wrapped into the signed 16-bit range.
\<close>

definition trunc :: "rat \<Rightarrow> int" where
  "trunc q = (if q < 0 then \<lceil>q\<rceil> else \<lfloor>q\<rfloor>)"

fun ToInt16 :: "js_number \<Rightarrow> int" where
  "ToInt16 (Finite q) =
     (let int16bit = trunc q mod 65536 in
      if int16bit \<ge> 32768 then int16bit - 65536 else int16bit)"
| "ToInt16 _ = 0"

subsection \<open>DataView over an ArrayBuffer\<close>

text \<open>
  An \<open>ArrayBuffer\<close> is its list of bytes.  A \<open>DataView\<close> setter throws \<open>RangeError\<close>
  (\<open>None\<close>) when the bytes it writes do not lie inside the buffer, and writes nothing
  then.  The integer setters reduce their argument modulo \<open>2\<^sup>8\<close>, \<open>2\<^sup>1\<^sup>6\<close> or \<open>2\<^sup>3\<^sup>2\<close>
  (\<open>of_nat\<close> into a byte keeps the low 8 bits) and, with \<open>littleEndian = true\<close>, write
  the low byte first.
\<close>

definition write_bytes :: "nat \<Rightarrow> Blob \<Rightarrow> Blob \<Rightarrow> Blob option" where
  "write_bytes byteOffset bs view =
     (if byteOffset + length bs \<le> length view
      then Some (take byteOffset view @ bs @ drop (byteOffset + length bs) view)
      else None)"

definition uint16_bytes :: "nat \<Rightarrow> Blob" where
  "uint16_bytes v = [of_nat v, of_nat (v div 256)]"

definition uint32_bytes :: "nat \<Rightarrow> Blob" where
  "uint32_bytes v = [of_nat v, of_nat (v div 256), of_nat (v div 65536), of_nat (v div 16777216)]"

definition int16_bytes :: "js_number \<Rightarrow> Blob" where
  "int16_bytes x = uint16_bytes (nat (ToInt16 x mod 65536))"

definition setUint8 :: "nat \<Rightarrow> nat \<Rightarrow> Blob \<Rightarrow> Blob option" where
  "setUint8 byteOffset v view = write_bytes byteOffset [of_nat v] view"

definition setUint16 :: "nat \<Rightarrow> nat \<Rightarrow> Blob \<Rightarrow> Blob option" where
  "setUint16 byteOffset v view = write_bytes byteOffset (uint16_bytes v) view"

definition setUint32 :: "nat \<Rightarrow> nat \<Rightarrow> Blob \<Rightarrow> Blob option" where
  "setUint32 byteOffset v view = write_bytes byteOffset (uint32_bytes v) view"

definition setInt16 :: "nat \<Rightarrow> js_number \<Rightarrow> Blob \<Rightarrow> Blob option" where
  "setInt16 byteOffset x view = write_bytes byteOffset (int16_bytes x) view"

text \<open>
  The little-endian readers \<open>getUint32(byteOffset, true)\<close> and
  \<open>getInt16(byteOffset, true)\<close>, by which a consumer of the file reads what the header
  records and what a sample was encoded as.
\<close>

definition getUint32 :: "nat \<Rightarrow> Blob \<Rightarrow> nat option" where
  "getUint32 byteOffset view =
     (if byteOffset + 4 \<le> length view
      then Some (unat (view ! byteOffset) + 256 * unat (view ! (byteOffset + 1))
                 + 65536 * unat (view ! (byteOffset + 2))
                 + 16777216 * unat (view ! (byteOffset + 3)))
      else None)"

definition getInt16 :: "nat \<Rightarrow> Blob \<Rightarrow> int option" where
  "getInt16 byteOffset view =
     (if byteOffset + 2 \<le> length view
      then (let u = int (unat (view ! byteOffset)) + 256 * int (unat (view ! (byteOffset + 1)))
            in Some (if u \<ge> 32768 then u - 65536 else u))
      else None)"

subsection \<open>The encoder\<close>

text \<open>\<open>writeString\<close>: one \<open>setUint8\<close> per code unit, from \<open>offset\<close> on.\<close>

fun writeString :: "Blob \<Rightarrow> nat \<Rightarrow> js_string \<Rightarrow> Blob option" where
  "writeString view offset [] = Some view"
| "writeString view offset (c # cs) =
     do { view' \<leftarrow> setUint8 offset (unat c) view; writeString view' (offset + 1) cs }"

text \<open>
  An \<open>AudioBuffer\<close> has a sample rate and at least one channel; the encoder reads
  channel 0 only.  A mono buffer has no other channel.
\<close>

record AudioBuffer =
  sampleRate :: nat
  channel0 :: "js_number list"
  otherChannels :: "js_number list list"

text \<open>
  The body of the sample loop: \<open>Math.max(-1, Math.min(1, data[i]))\<close>, then the scaling
  \<open>sample < 0 ? sample * 0x8000 : sample * 0x7fff\<close>.
\<close>

definition clamp :: "js_number \<Rightarrow> js_number" where
  "clamp x = math_max (Finite (- 1)) (math_min (Finite 1) x)"

definition scaled :: "js_number \<Rightarrow> js_number" where
  "scaled sample = (if js_less sample 0 then js_times sample 32768 else js_times sample 32767)"

fun writeSamples :: "nat \<Rightarrow> js_number list \<Rightarrow> Blob \<Rightarrow> Blob option" where
  "writeSamples offset [] view = Some view"
| "writeSamples offset (x # xs) view =
     do {
       let sample = clamp x;
       view' \<leftarrow> setInt16 offset (scaled sample) view;
       writeSamples (offset + 2) xs view'
     }"

text \<open>
  \<open>audioBufferToWav\<close>.  The buffer is allocated zero-filled; the header strings are
  \<open>'RIFF'\<close>, \<open>'WAVE'\<close>, \<open>'fmt '\<close> and \<open>'data'\<close>.
\<close>

definition audioBufferToWav :: "AudioBuffer \<Rightarrow> Blob option" where
  "audioBufferToWav buffer =
     (let numChannels = 1;
          sampleRate = sampleRate buffer;
          format = 1;
          bitDepth = 16;
          data = channel0 buffer;
          dataLength = length data * (bitDepth div 8);
          headerLength = 44;
          totalLength = headerLength + dataLength;
          arrayBuffer = replicate totalLength 0
      in do {
        view \<leftarrow> writeString arrayBuffer 0 [0x52, 0x49, 0x46, 0x46];
        view \<leftarrow> setUint32 4 (totalLength - 8) view;
        view \<leftarrow> writeString view 8 [0x57, 0x41, 0x56, 0x45];
        view \<leftarrow> writeString view 12 [0x66, 0x6D, 0x74, 0x20];
        view \<leftarrow> setUint32 16 16 view;
        view \<leftarrow> setUint16 20 format view;
        view \<leftarrow> setUint16 22 numChannels view;
        view \<leftarrow> setUint32 24 sampleRate view;
        view \<leftarrow> setUint32 28 (sampleRate * numChannels * (bitDepth div 8)) view;
        view \<leftarrow> setUint16 32 (numChannels * (bitDepth div 8)) view;
        view \<leftarrow> setUint16 34 bitDepth view;
        view \<leftarrow> writeString view 36 [0x64, 0x61, 0x74, 0x61];
        view \<leftarrow> setUint32 40 dataLength view;
        writeSamples 44 data view
      })"

subsection \<open>The file it produces, in closed form\<close>

definition sample_bytes :: "js_number \<Rightarrow> Blob" where
  "sample_bytes x = int16_bytes (scaled (clamp x))"

definition wav_header :: "nat \<Rightarrow> nat \<Rightarrow> Blob" where
  "wav_header rate n =
     [0x52, 0x49, 0x46, 0x46] @ uint32_bytes (36 + 2 * n) @
     [0x57, 0x41, 0x56, 0x45, 0x66, 0x6D, 0x74, 0x20] @ uint32_bytes 16 @
     [1, 0, 1, 0] @ uint32_bytes rate @ uint32_bytes (rate * 2) @
     [2, 0, 16, 0, 0x64, 0x61, 0x74, 0x61] @ uint32_bytes (2 * n)"

section \<open>The context manager (backend, not among the sources)\<close>

text \<open>
  Modelled from the spec: the backend's context service (\<open>context_service.py\<close> in the
  project layout) is not among the sources, so the turn, the context window, the token
  estimate and \<open>maybeCompress\<close> follow the specification's data model and component
  design.
\<close>

text \<open>
  Modelled from the spec: a turn has a role, text content, an optional estimated token
  count, an optional audio reference and its creation order.
\<close>

record Turn =
  turn_role :: Role
  turn_content :: string
  turn_tokens :: "nat option"
  turn_audio :: "string option"
  turn_seq :: nat

text \<open>
  Modelled from the spec: a context window is an ordered sequence of turns plus an
  optional summary that stands in for the turns evicted by compression.
\<close>

record ContextWindow =
  turns :: "Turn list"
  contextSummary :: "string option"





definition append :: "Turn \<Rightarrow> ContextWindow \<Rightarrow> ContextWindow" where
  "append turn w = w\<lparr>turns := turns w @ [turn]\<rparr>"



section \<open>Frame of updateLastMessage\<close>

lemma updateLastMessage_messages:
  "messages (updateLastMessage c state) =
     (if messages state \<noteq> [] \<and> role (last (messages state)) = Assistant
      then butlast (messages state) @ [(last (messages state))\<lparr>content := c\<rparr>]
      else messages state)"
proof (cases "messages state" rule: rev_cases)
  case Nil
  then show ?thesis by (simp add: updateLastMessage_def)
next
  case (snoc ys y)
  then show ?thesis by (simp add: updateLastMessage_def Let_def)
qed

text \<open>
  Claim C9.  \<open>updateLastMessage content\<close> keeps the length of the message list and every
  element but the last; of the last element it keeps every field but \<open>content\<close>, and it
  changes \<open>content\<close> (to the argument) only when the last element's role is
  \<open>assistant\<close>.  On an empty list, or when the last message is not an assistant message,
  the whole store state is unchanged.  No other field of the store changes in any case.
\<close>

theorem updateLastMessage_frame:
  "length (messages (updateLastMessage c state)) = length (messages state)
   \<and> (\<forall>i. Suc i < length (messages state) \<longrightarrow>
          messages (updateLastMessage c state) ! i = messages state ! i)
   \<and> (messages state \<noteq> [] \<longrightarrow>
        id_field (last (messages (updateLastMessage c state))) = id_field (last (messages state))
      \<and> role (last (messages (updateLastMessage c state))) = role (last (messages state))
      \<and> conversation_id (last (messages (updateLastMessage c state)))
          = conversation_id (last (messages state))
      \<and> token_count (last (messages (updateLastMessage c state)))
          = token_count (last (messages state))
      \<and> created_at (last (messages (updateLastMessage c state)))
          = created_at (last (messages state))
      \<and> audio_path (last (messages (updateLastMessage c state)))
          = audio_path (last (messages state))
      \<and> content (last (messages (updateLastMessage c state)))
          = (if role (last (messages state)) = Assistant then c
             else content (last (messages state))))
   \<and> (messages state = [] \<or> role (last (messages state)) \<noteq> Assistant \<longrightarrow>
        updateLastMessage c state = state)
   \<and> updateLastMessage c state = state\<lparr>messages := messages (updateLastMessage c state)\<rparr>"
proof (cases "messages state" rule: rev_cases)
  case Nil
  then show ?thesis by (simp add: updateLastMessage_def)
next
  case (snoc ys y)
  then show ?thesis
    by (simp add: updateLastMessage_def Let_def nth_append)
qed

theorem updateLastMessage_frame_witness:
  "updateLastMessage [0x6F, 0x6B]
     \<lparr>conversations = [], groups = [], currentConversation = None,
      messages = [\<lparr>id_field = 1, conversation_id = 7, role = User, content = [0x68],
                   audio_path = None, token_count = 1, created_at = []\<rparr>,
                  \<lparr>id_field = 2, conversation_id = 7, role = Assistant, content = [],
                   audio_path = None, token_count = 0, created_at = []\<rparr>],
      isLoading = False, searchQuery = [], selectedGroupId = None, fetchRequests = 0\<rparr>
   = \<lparr>conversations = [], groups = [], currentConversation = None,
      messages = [\<lparr>id_field = 1, conversation_id = 7, role = User, content = [0x68],
                   audio_path = None, token_count = 1, created_at = []\<rparr>,
                  \<lparr>id_field = 2, conversation_id = 7, role = Assistant, content = [0x6F, 0x6B],
                   audio_path = None, token_count = 0, created_at = []\<rparr>],
      isLoading = False, searchQuery = [], selectedGroupId = None, fetchRequests = 0\<rparr>"
  using updateLastMessage_frame
    [of "[0x6F, 0x6B]"
        "\<lparr>conversations = [], groups = [], currentConversation = None,
      messages = [\<lparr>id_field = 1, conversation_id = 7, role = User, content = [0x68],
                   audio_path = None, token_count = 1, created_at = []\<rparr>,
                  \<lparr>id_field = 2, conversation_id = 7, role = Assistant, content = [],
                   audio_path = None, token_count = 0, created_at = []\<rparr>],
      isLoading = False, searchQuery = [], selectedGroupId = None, fetchRequests = 0\<rparr>"]
  by (simp add: updateLastMessage_def)

section \<open>The event union and its handler\<close>

lemma unmatched_unchanged: "matched_case m = None \<Longrightarrow> handleWSMessage m v = v"
  by (cases m) simp_all

text \<open>
  Claim C1, as the code has it.  The union \<open>WSMessage\<close> is closed and has seven members:
  the six event kinds of the specification's list and \<open>transcription\<close>.  The handler's
  \<open>switch\<close> has a label for exactly four of them (\<open>user_message\<close>, \<open>assistant_chunk\<close>,
  \<open>assistant_complete\<close>, \<open>error\<close>); a \<open>status\<close>, \<open>transcription\<close> or \<open>assistant_audio\<close>
  message selects no label and leaves the view unchanged.
\<close>

theorem WSMessage_union_and_switch:
  "type_tag m \<in> set (spec_event_kinds @ [''transcription''])
   \<and> distinct (spec_event_kinds @ [''transcription''])
   \<and> (matched_case m = None \<longleftrightarrow>
        type_tag m \<in> {''status'', ''transcription'', ''assistant_audio''})
   \<and> (matched_case m \<noteq> None \<longleftrightarrow>
        type_tag m \<in> {''user_message'', ''assistant_chunk'', ''assistant_complete'', ''error''})
   \<and> (matched_case m = None \<longrightarrow> handleWSMessage m v = v)"
  by (cases m) (simp_all add: spec_event_kinds_def)

theorem WSMessage_union_and_switch_witness:
  "matched_case (WSStatus thinking) = None
   \<and> handleWSMessage (WSStatus thinking) initialChatView = initialChatView
   \<and> type_tag (WSStatus thinking) = ''status''"
  using WSMessage_union_and_switch [of "WSStatus thinking" initialChatView]
  by simp

text \<open>
  The claim as stated fails twice: \<open>transcription\<close> is a member of the union that the
  specification's list does not name, and three members select no label of the \<open>switch\<close>.
\<close>

theorem WSMessage_switch_counterexample:
  "type_tag (WSTranscription []) \<notin> set spec_event_kinds
   \<and> matched_case (WSStatus thinking) = None
   \<and> matched_case (WSTranscription []) = None
   \<and> matched_case (WSAudio [] []) = None"
  by (simp add: spec_event_kinds_def)

section \<open>One turn at a time\<close>

text \<open>
  The text path keeps the rule: with \<open>isStreaming\<close> set, \<open>sendMessage\<close> returns at its
  guard, so nothing is handed to the socket and no cell of the view changes.
\<close>

lemma sendMessage_busy: "isStreaming v \<Longrightarrow> sendMessage v = v"
  by (simp add: sendMessage_def)

text \<open>
  A voice callback made by a render in which \<open>isStreaming\<close> was set returns at its guard
  as well.
\<close>

lemma handleVoiceMessage_busy: "handleVoiceMessage True t v = (None, v)"
  by (simp add: handleVoiceMessage_def)

text \<open>
  But a recording can only be started while \<open>isStreaming\<close> is clear, and the callback it
  will deliver its transcription to is the one of that moment: the constant the
  callback tests is clear in every state a client reaches, for the recorder at hand
  and for every pending request.
\<close>

lemma step_captured:
  assumes "\<not> capturedStreaming c" "True \<notin> set (pendingStarts c)" "True \<notin> set (pendingStt c)"
  shows "\<not> capturedStreaming (step a c) \<and> True \<notin> set (pendingStarts (step a c))
         \<and> True \<notin> set (pendingStt (step a c))"
proof (cases a)
  case (MicrophoneAnswer reply)
  then show ?thesis using assms
    by (cases reply; cases "pendingStarts c") (simp_all add: Let_def)
next
  case (SttReturns reply)
  then show ?thesis using assms
    by (cases "pendingStt c") (simp_all add: Let_def)
qed (use assms in \<open>simp_all add: Let_def\<close>)

lemma run_captured:
  "\<not> capturedStreaming c \<Longrightarrow> True \<notin> set (pendingStarts c) \<Longrightarrow> True \<notin> set (pendingStt c) \<Longrightarrow>
   \<not> capturedStreaming (run as c) \<and> True \<notin> set (pendingStarts (run as c))
   \<and> True \<notin> set (pendingStt (run as c))"
proof (induction as arbitrary: c)
  case Nil
  then show ?case by simp
next
  case (Cons a as)
  from step_captured [OF Cons.prems, of a] Cons.IH [of "step a c"] show ?case
    by simp
qed

text \<open>
  Claim C2 asks that a second turn submitted while a turn is in flight, by the text
  path or by the voice path, be rejected and leave the turn in flight unaffected.  The
  voice path breaks it.  The user presses the microphone button, the microphone is
  granted, the user records a message and releases the button; while the
  speech-to-text request is pending the user sends the text \<open>hi\<close>, and the chunk \<open>par\<close>
  of the answer arrives: the view is streaming, shows \<open>par\<close>, and one frame has been
  sent.  Then the request is answered with the text \<open>yo\<close>.  The callback that receives
  it was made before the turn started, its \<open>isStreaming\<close> is false, and it submits: a
  second frame \<open>yo\<close> is handed to the socket and the accumulated content is cleared.
\<close>

theorem voice_path_submits_while_streaming:
  "isStreaming (chatView (run
      [MouseDown, MicrophoneAnswer Started, DataAvailable [0x1A], MouseUp, SetInput [0x68, 0x69], Send,
       Receive (WSAssistantChunk [0x70, 0x61, 0x72])]
      (initialClient\<lparr>chatView := initialChatView\<lparr>wsRef := Some \<lparr>readyState = OPEN, sent = []\<rparr>\<rparr>\<rparr>)))
   \<and> streamingContent (chatView (run
      [MouseDown, MicrophoneAnswer Started, DataAvailable [0x1A], MouseUp, SetInput [0x68, 0x69], Send,
       Receive (WSAssistantChunk [0x70, 0x61, 0x72])]
      (initialClient\<lparr>chatView := initialChatView\<lparr>wsRef := Some \<lparr>readyState = OPEN, sent = []\<rparr>\<rparr>\<rparr>)))
     = [0x70, 0x61, 0x72]
   \<and> wsRef (chatView (run
      [MouseDown, MicrophoneAnswer Started, DataAvailable [0x1A], MouseUp, SetInput [0x68, 0x69], Send,
       Receive (WSAssistantChunk [0x70, 0x61, 0x72])]
      (initialClient\<lparr>chatView := initialChatView\<lparr>wsRef := Some \<lparr>readyState = OPEN, sent = []\<rparr>\<rparr>\<rparr>)))
     = Some \<lparr>readyState = OPEN, sent = [[0x68, 0x69]]\<rparr>
   \<and> submits (SttReturns (ResponseJson (JObject [(text_key, JString [0x79, 0x6F])])))
       (run
      [MouseDown, MicrophoneAnswer Started, DataAvailable [0x1A], MouseUp, SetInput [0x68, 0x69], Send,
       Receive (WSAssistantChunk [0x70, 0x61, 0x72])]
      (initialClient\<lparr>chatView := initialChatView\<lparr>wsRef := Some \<lparr>readyState = OPEN, sent = []\<rparr>\<rparr>\<rparr>))
   \<and> streamingContent (chatView (run
      [MouseDown, MicrophoneAnswer Started, DataAvailable [0x1A], MouseUp, SetInput [0x68, 0x69], Send,
       Receive (WSAssistantChunk [0x70, 0x61, 0x72]),
       SttReturns (ResponseJson (JObject [(text_key, JString [0x79, 0x6F])]))]
      (initialClient\<lparr>chatView := initialChatView\<lparr>wsRef := Some \<lparr>readyState = OPEN, sent = []\<rparr>\<rparr>\<rparr>)))
     = []
   \<and> wsRef (chatView (run
      [MouseDown, MicrophoneAnswer Started, DataAvailable [0x1A], MouseUp, SetInput [0x68, 0x69], Send,
       Receive (WSAssistantChunk [0x70, 0x61, 0x72]),
       SttReturns (ResponseJson (JObject [(text_key, JString [0x79, 0x6F])]))]
      (initialClient\<lparr>chatView := initialChatView\<lparr>wsRef := Some \<lparr>readyState = OPEN, sent = []\<rparr>\<rparr>\<rparr>)))
     = Some \<lparr>readyState = OPEN, sent = [[0x68, 0x69], [0x79, 0x6F]]\<rparr>"
  by (simp add: initialClient_def initialChatView_def initialVoiceRecorder_def
      startRecording_begin_def startRecording_finish_def ondataavailable_def
      onstop_begin_def onstop_finish_def
      sendMessage_def handleVoiceMessage_def send_content_def ws_send_def
      trim_def isWhiteSpace_def truthy_def text_key_def Let_def)

section \<open>Streaming chunks\<close>

lemma send_content_streaming [simp]:
  "isStreaming (snd (send_content c v)) = isStreaming v"
  "streamingContent (snd (send_content c v)) = streamingContent v"
  "store (snd (send_content c v)) = store v"
  by (simp_all add: send_content_def ws_send_def split: option.splits sum.splits ReadyState.splits)

lemma sendMessage_submits:
  assumes "truthy (trim (inputValue v))" "wsRef v \<noteq> None" "\<not> isStreaming v"
  shows "isStreaming (sendMessage v)" "streamingContent (sendMessage v) = []"
proof -
  let ?v = "v\<lparr>inputValue := [], isStreaming := True, streamingContent := []\<rparr>"
  obtain e v' where s: "send_content (trim (inputValue v)) ?v = (e, v')"
    by (cases "send_content (trim (inputValue v)) ?v")
  have "isStreaming (snd (send_content (trim (inputValue v)) ?v))"
       "streamingContent (snd (send_content (trim (inputValue v)) ?v)) = []"
    by simp_all
  then have v': "isStreaming v'" "streamingContent v' = []"
    by (simp_all add: s)
  from assms s v' show "isStreaming (sendMessage v)" "streamingContent (sendMessage v) = []"
    by (auto simp: sendMessage_def split: option.splits)
qed

lemma receiveChunks_eq:
  "receiveChunks cs v = v\<lparr>streamingContent := streamingContent v @ concat cs\<rparr>"
  unfolding receiveChunks_def
  by (induction cs arbitrary: v) simp_all

text \<open>
  Claim C3.  A chunk event appends its \<open>content\<close> to \<open>streamingContent\<close> in the very step
  that handles it and changes nothing else; after any finite run of chunk events the
  content is what it was before followed by the chunks' contents in arrival order.  A
  turn starts with the content reset to the empty string (by a send that passes its
  guard, or by a voice callback that passes its guard), so during the turn the content,
  and the streaming bubble once it is non-empty, is the concatenation of the chunks
  received since the turn started.
\<close>

theorem chunks_concatenate:
  "handleWSMessage (WSAssistantChunk c) v = v\<lparr>streamingContent := streamingContent v @ c\<rparr>
   \<and> streamingContent (receiveChunks cs v) = streamingContent v @ concat cs
   \<and> (truthy (trim (inputValue v)) \<and> wsRef v \<noteq> None \<and> \<not> isStreaming v \<longrightarrow>
        streamingContent (receiveChunks cs (sendMessage v)) = concat cs
      \<and> isStreaming (receiveChunks cs (sendMessage v))
      \<and> streamingBubble (receiveChunks cs (sendMessage v))
          = (if concat cs = [] then None else Some (concat cs)))
   \<and> (wsRef v \<noteq> None \<longrightarrow>
        streamingContent (receiveChunks cs (snd (handleVoiceMessage False t v))) = concat cs
      \<and> isStreaming (receiveChunks cs (snd (handleVoiceMessage False t v)))
      \<and> streamingBubble (receiveChunks cs (snd (handleVoiceMessage False t v)))
          = (if concat cs = [] then None else Some (concat cs)))"
  by (simp add: receiveChunks_eq sendMessage_submits handleVoiceMessage_def streamingBubble_def
      truthy_def)

theorem chunks_concatenate_witness:
  "truthy (trim [0x68, 0x69])
   \<and> streamingBubble
       (receiveChunks [[0x61], [], [0x62, 0x63]]
         (sendMessage
           (initialChatView\<lparr>inputValue := [0x68, 0x69],
              wsRef := Some \<lparr>readyState = OPEN, sent = []\<rparr>\<rparr>)))
     = Some [0x61, 0x62, 0x63]"
proof -
  have g: "truthy (trim [0x68, 0x69])"
    by (simp add: trim_def isWhiteSpace_def truthy_def)
  have i: "\<not> isStreaming (initialChatView\<lparr>inputValue := [0x68, 0x69],
        wsRef := Some \<lparr>readyState = OPEN, sent = []\<rparr>\<rparr>)"
    by (simp add: initialChatView_def)
  show ?thesis
    using g i chunks_concatenate
      [of "[]" "initialChatView\<lparr>inputValue := [0x68, 0x69],
        wsRef := Some \<lparr>readyState = OPEN, sent = []\<rparr>\<rparr>"
        "[[0x61], [], [0x62, 0x63]]" "[]"]
    by simp
qed

section \<open>Completion of a turn\<close>

text \<open>
  Claim C4.  Handling \<open>assistant_complete\<close> appends the event's message once, at the end
  of the store's message list, and clears the streaming state; the chunks accumulated
  before it (any run of chunk events) add nothing to the message list, so the list grows
  by exactly this one message.
\<close>

theorem complete_appends_once:
  "messages (store (handleWSMessage (WSAssistantComplete m) v)) = messages (store v) @ [m]
   \<and> isStreaming (handleWSMessage (WSAssistantComplete m) v) = False
   \<and> streamingContent (handleWSMessage (WSAssistantComplete m) v) = []
   \<and> messages (store (handleWSMessage (WSAssistantComplete m) (receiveChunks cs v)))
       = messages (store v) @ [m]
   \<and> length (messages (store (handleWSMessage (WSAssistantComplete m) (receiveChunks cs v))))
       = Suc (length (messages (store v)))
   \<and> messages (store (receiveChunks cs v)) = messages (store v)
   \<and> streamingBubble (handleWSMessage (WSAssistantComplete m) (receiveChunks cs v)) = None
   \<and> thinkingIndicator (handleWSMessage (WSAssistantComplete m) (receiveChunks cs v)) = False"
  by (simp add: receiveChunks_eq addMessage_def fetchConversations_def streamingBubble_def
      thinkingIndicator_def)

theorem complete_appends_once_witness:
  "messages (store (handleWSMessage
      (WSAssistantComplete \<lparr>id_field = 2, conversation_id = 7, role = Assistant,
         content = [0x61, 0x62], audio_path = None, token_count = 1, created_at = []\<rparr>)
      (receiveChunks [[0x61], [0x62]] (initialChatView\<lparr>isStreaming := True\<rparr>))))
   = [\<lparr>id_field = 2, conversation_id = 7, role = Assistant,
         content = [0x61, 0x62], audio_path = None, token_count = 1, created_at = []\<rparr>]"
  using complete_appends_once
    [of "\<lparr>id_field = 2, conversation_id = 7, role = Assistant,
         content = [0x61, 0x62], audio_path = None, token_count = 1, created_at = []\<rparr>"
        "initialChatView\<lparr>isStreaming := True\<rparr>" "[[0x61], [0x62]]"]
  by (simp add: initialChatView_def initialStore_def)

section \<open>After an error event\<close>

lemma onstop_finish_view:
  "snd (onstop_finish f reply (r, p))
     = (case try_block reply of Transcribed s \<Rightarrow> snd (f s p) | NoSpeech \<Rightarrow> p | Thrown \<Rightarrow> p)"
  by (simp add: onstop_finish_def split: TryResult.splits prod.splits option.splits)

lemma step_keeps_idle:
  assumes "\<not> isStreaming (chatView c)" "\<not> submits a c"
  shows "\<not> isStreaming (chatView (step a c))"
proof (cases a)
  case (Receive m)
  then show ?thesis using assms(1) by (cases m) simp_all
next
  case (SetInput s)
  then show ?thesis using assms(1) by simp
next
  case Send
  then show ?thesis using assms by (auto simp: sendMessage_def)
next
  case MouseDown
  then show ?thesis using assms(1) by simp
next
  case (MicrophoneAnswer reply)
  then show ?thesis using assms(1)
    by (cases reply; cases "pendingStarts c") (simp_all add: Let_def)
next
  case (DataAvailable blob)
  then show ?thesis using assms(1) by simp
next
  case MouseUp
  then show ?thesis using assms(1) by simp
next
  case (SttReturns reply)
  then show ?thesis using assms
    by (cases "pendingStt c")
       (auto simp: Let_def onstop_finish_view handleVoiceMessage_def split: TryResult.splits)
qed

lemma run_keeps_idle:
  "\<not> isStreaming (chatView c) \<Longrightarrow> no_turn_submitted as c \<Longrightarrow> \<not> isStreaming (chatView (run as c))"
proof (induction as arbitrary: c)
  case Nil
  then show ?case by simp
next
  case (Cons a as)
  from Cons.prems have "\<not> isStreaming (chatView (step a c))" "no_turn_submitted as (step a c)"
    by (simp_all add: step_keeps_idle)
  then show ?case using Cons.IH by simp
qed

text \<open>
  Claim C5.  Handling an \<open>error\<close> event clears \<open>isStreaming\<close>.  In every state the client
  reaches from there by actions that submit no new turn (received frames, edits of the
  text box, rejected sends, recording, and answers of speech-to-text requests that
  submit nothing), the flag is still clear, so neither the "thinking" indicator nor
  the streaming bubble is rendered.
\<close>

theorem error_clears_thinking:
  "no_turn_submitted as (step (Receive (WSError e)) c) \<Longrightarrow>
     \<not> isStreaming (chatView (step (Receive (WSError e)) c))
     \<and> \<not> isStreaming (chatView (run as (step (Receive (WSError e)) c)))
     \<and> \<not> thinkingIndicator (chatView (run as (step (Receive (WSError e)) c)))
     \<and> streamingBubble (chatView (run as (step (Receive (WSError e)) c))) = None"
proof -
  assume a: "no_turn_submitted as (step (Receive (WSError e)) c)"
  have "\<not> isStreaming (chatView (step (Receive (WSError e)) c))" by simp
  then have "\<not> isStreaming (chatView (run as (step (Receive (WSError e)) c)))"
    using a by (rule run_keeps_idle)
  then show ?thesis
    by (simp add: thinkingIndicator_def streamingBubble_def)
qed

theorem error_clears_thinking_witness:
  "no_turn_submitted
     [Receive (WSAssistantChunk [0x62]), Receive (WSStatus thinking), Send, MouseDown,
      MicrophoneAnswer Started, MouseUp, SttReturns FetchFails]
     (step (Receive (WSError [0x65]))
        (initialClient\<lparr>chatView := initialChatView\<lparr>isStreaming := True,
           streamingContent := [0x61]\<rparr>\<rparr>))
   \<and> \<not> thinkingIndicator (chatView
       (run [Receive (WSAssistantChunk [0x62]), Receive (WSStatus thinking), Send,
             MouseDown, MicrophoneAnswer Started, MouseUp, SttReturns FetchFails]
         (step (Receive (WSError [0x65]))
            (initialClient\<lparr>chatView := initialChatView\<lparr>isStreaming := True,
               streamingContent := [0x61]\<rparr>\<rparr>))))
   \<and> streamingBubble (chatView
       (run [Receive (WSAssistantChunk [0x62]), Receive (WSStatus thinking), Send,
             MouseDown, MicrophoneAnswer Started, MouseUp, SttReturns FetchFails]
         (step (Receive (WSError [0x65]))
            (initialClient\<lparr>chatView := initialChatView\<lparr>isStreaming := True,
               streamingContent := [0x61]\<rparr>\<rparr>)))) = None"
proof -
  have g: "no_turn_submitted
     [Receive (WSAssistantChunk [0x62]), Receive (WSStatus thinking), Send, MouseDown,
      MicrophoneAnswer Started, MouseUp, SttReturns FetchFails]
     (step (Receive (WSError [0x65]))
        (initialClient\<lparr>chatView := initialChatView\<lparr>isStreaming := True,
           streamingContent := [0x61]\<rparr>\<rparr>))"
    by (simp add: initialClient_def initialChatView_def initialVoiceRecorder_def
        sendMessage_def startRecording_begin_def startRecording_finish_def onstop_begin_def
        trim_def truthy_def Let_def)
  from error_clears_thinking [OF g] g show ?thesis
    by blast
qed

section \<open>The token store\<close>

text \<open>
  Claim C8, as the code has it.  Let the storage be accessible.  A \<open>setToken(t)\<close> that
  the user agent accepts returns without an exception, and after it \<open>getToken()\<close>
  returns \<open>t\<close> and \<open>isAuthenticated()\<close> returns true exactly when \<open>t\<close> is not the empty
  string; a \<open>setToken(t)\<close> that the user agent does not accept throws
  \<open>QuotaExceededError\<close> and leaves the storage, hence the token, as it was.  After
  \<open>logout()\<close>, \<open>getToken()\<close> returns \<open>null\<close> and \<open>isAuthenticated()\<close> returns false.  In
  every state \<open>isAuthenticated()\<close> returns true exactly when \<open>getToken()\<close> returns a
  non-empty string.  The two reads change nothing, so they may be repeated between the
  write and the read.  When the storage is not accessible all four methods throw
  \<open>SecurityError\<close>.
\<close>

theorem token_store_roundtrip:
  "(accessible ua \<and> accepts ua localStorage token_key t \<longrightarrow>
      fst (setToken ua t localStorage) = None
    \<and> getToken ua (snd (setToken ua t localStorage)) = Inr (Some t)
    \<and> isAuthenticated ua (snd (setToken ua t localStorage)) = Inr (t \<noteq> [])
    \<and> getToken ua (snd (logout ua (snd (setToken ua t localStorage)))) = Inr None)
   \<and> (accessible ua \<and> \<not> accepts ua localStorage token_key t \<longrightarrow>
      setToken ua t localStorage = (Some QuotaExceededError, localStorage))
   \<and> (accessible ua \<longrightarrow>
      fst (logout ua localStorage) = None
    \<and> getToken ua (snd (logout ua localStorage)) = Inr None
    \<and> isAuthenticated ua (snd (logout ua localStorage)) = Inr False
    \<and> isAuthenticated ua localStorage
        = Inr (\<exists>t'. getToken ua localStorage = Inr (Some t') \<and> t' \<noteq> []))
   \<and> (\<not> accessible ua \<longrightarrow>
      setToken ua t localStorage = (Some SecurityError, localStorage)
    \<and> logout ua localStorage = (Some SecurityError, localStorage)
    \<and> getToken ua localStorage = Inl SecurityError
    \<and> isAuthenticated ua localStorage = Inl SecurityError)"
  by (simp add: getToken_def setToken_def logout_def isAuthenticated_def truthy_def
      split: option.splits)

theorem token_store_roundtrip_witness:
  "getToken (quotaAgent 5000000) (snd (setToken (quotaAgent 5000000) [0x61, 0x62] Map.empty))
     = Inr (Some [0x61, 0x62])
   \<and> isAuthenticated (quotaAgent 5000000)
       (snd (setToken (quotaAgent 5000000) [0x61, 0x62] Map.empty)) = Inr True
   \<and> isAuthenticated (quotaAgent 5000000)
       (snd (logout (quotaAgent 5000000)
          (snd (setToken (quotaAgent 5000000) [0x61, 0x62] Map.empty)))) = Inr False"
proof -
  have a: "accessible (quotaAgent 5000000)"
    by (simp add: quotaAgent_def)
  have b: "accepts (quotaAgent 5000000) Map.empty token_key [0x61, 0x62]"
    by (simp add: quotaAgent_def token_key_def)
  show ?thesis
    using a b
      token_store_roundtrip [of "quotaAgent 5000000" Map.empty "[0x61, 0x62]"]
      token_store_roundtrip [of "quotaAgent 5000000"
        "snd (setToken (quotaAgent 5000000) [0x61, 0x62] Map.empty)" "[]"]
    by simp
qed

text \<open>
  The claim as stated fails in three ways.  The empty string is a token string, and
  after \<open>setToken('')\<close> \<open>isAuthenticated()\<close> returns false.  With a quota of 5,000,000
  code units, \<open>setToken\<close> of a token of 6,000,000 code units throws \<open>QuotaExceededError\<close>,
  and \<open>getToken()\<close> then returns \<open>null\<close>, not the token.  And when the storage is not
  accessible, \<open>setToken\<close> and \<open>getToken\<close> throw \<open>SecurityError\<close>.
\<close>

theorem token_store_empty_counterexample:
  "getToken (quotaAgent 5000000) (snd (setToken (quotaAgent 5000000) [] Map.empty))
     = Inr (Some [])
   \<and> isAuthenticated (quotaAgent 5000000) (snd (setToken (quotaAgent 5000000) [] Map.empty))
     = Inr False
   \<and> setToken (quotaAgent 5000000) (replicate 6000000 0x61) Map.empty
     = (Some QuotaExceededError, Map.empty)
   \<and> getToken (quotaAgent 5000000)
       (snd (setToken (quotaAgent 5000000) (replicate 6000000 0x61) Map.empty)) = Inr None
   \<and> setToken blockedAgent [0x61, 0x62] Map.empty = (Some SecurityError, Map.empty)
   \<and> getToken blockedAgent (snd (setToken blockedAgent [0x61, 0x62] Map.empty))
     = Inl SecurityError"
  by (simp add: getToken_def setToken_def isAuthenticated_def truthy_def quotaAgent_def
      blockedAgent_def token_key_def)

section \<open>Empty transcriptions\<close>

text \<open>
  Claim C6, as the code has it.  When the reply's \<open>text\<close> is a string that is empty or
  consists of white space only, the parent's callback is not invoked (the parent's state
  is unchanged whatever the callback is), the error "no speech detected" is set and the
  recorder is idle again.  When the recording produced no chunk, the callback is not
  invoked either and the recorder is idle again, but no error is set: \<open>error\<close> keeps its
  value, which \<open>startRecording\<close> had reset to \<open>null\<close>.
\<close>

theorem empty_transcription_aborts:
  "(chunksRef r \<noteq> [] \<and> get_text data = Inr (Some (JString s)) \<and> trim s = [] \<longrightarrow>
      onstop f (ResponseJson data) (r, p)
        = (r\<lparr>streamRef := False, error := Some no_speech_message, status := idle\<rparr>, p))
   \<and> (chunksRef r = [] \<longrightarrow>
      onstop f reply (r, p) = (r\<lparr>streamRef := False, status := idle\<rparr>, p))"
  by (simp add: onstop_def onstop_begin_def onstop_finish_def Let_def truthy_def)

theorem empty_transcription_aborts_witness:
  "onstop (handleVoiceMessage False)
     (ResponseJson (JObject [(text_key, JString [0x20, 0x0A])]))
     (ondataavailable [0x1A] (startRecording Started initialVoiceRecorder),
      initialChatView\<lparr>wsRef := Some \<lparr>readyState = OPEN, sent = []\<rparr>\<rparr>)
   = (\<lparr>status = idle, error = Some no_speech_message, chunksRef = [[0x1A]],
       streamRef = False, mediaRecorderRef = True\<rparr>,
      initialChatView\<lparr>wsRef := Some \<lparr>readyState = OPEN, sent = []\<rparr>\<rparr>)
   \<and> onstop (handleVoiceMessage False) FetchFails
     (startRecording Started initialVoiceRecorder,
      initialChatView\<lparr>wsRef := Some \<lparr>readyState = OPEN, sent = []\<rparr>\<rparr>)
   = (\<lparr>status = idle, error = None, chunksRef = [],
       streamRef = False, mediaRecorderRef = True\<rparr>,
      initialChatView\<lparr>wsRef := Some \<lparr>readyState = OPEN, sent = []\<rparr>\<rparr>)"
proof -
  have t: "trim [0x20, 0x0A] = []"
    by (simp add: trim_def isWhiteSpace_def)
  have c: "chunksRef (ondataavailable [0x1A] (startRecording Started initialVoiceRecorder))
      = [[0x1A]]"
    by (simp add: ondataavailable_def startRecording_def startRecording_begin_def
        startRecording_finish_def initialVoiceRecorder_def)
  have e: "chunksRef (startRecording Started initialVoiceRecorder) = []"
    by (simp add: startRecording_def startRecording_begin_def startRecording_finish_def
        initialVoiceRecorder_def)
  show ?thesis
    using t c e
      empty_transcription_aborts
        [of "ondataavailable [0x1A] (startRecording Started initialVoiceRecorder)"
            "JObject [(text_key, JString [0x20, 0x0A])]" "[0x20, 0x0A]"
            "handleVoiceMessage False"
            "initialChatView\<lparr>wsRef := Some \<lparr>readyState = OPEN, sent = []\<rparr>\<rparr>"
            FetchFails]
      empty_transcription_aborts
        [of "startRecording Started initialVoiceRecorder"
            "JObject [(text_key, JString [0x20, 0x0A])]" "[0x20, 0x0A]"
            "handleVoiceMessage False"
            "initialChatView\<lparr>wsRef := Some \<lparr>readyState = OPEN, sent = []\<rparr>\<rparr>"
            FetchFails]
    by (simp add: ondataavailable_def startRecording_def startRecording_begin_def
        startRecording_finish_def initialVoiceRecorder_def)
qed

text \<open>
  The claim as stated fails for a recording without chunks: after \<open>onstop\<close> no error is
  reported.
\<close>

theorem empty_recording_counterexample:
  "chunksRef (startRecording Started initialVoiceRecorder) = []
   \<and> error (fst (onstop (handleVoiceMessage False) FetchFails
        (startRecording Started initialVoiceRecorder, initialChatView))) = None
   \<and> status (fst (onstop (handleVoiceMessage False) FetchFails
        (startRecording Started initialVoiceRecorder, initialChatView))) = idle"
  by (simp add: onstop_def onstop_begin_def startRecording_def startRecording_begin_def
      startRecording_finish_def initialVoiceRecorder_def)

section \<open>Interleavings of the recorder\<close>

text \<open>
  A transcription delivered while the socket is still connecting: the callback sets the
  streaming state and its \<open>send\<close> throws; the \<open>catch\<close> of \<open>onstop\<close> reports the failure
  of the recognition, and no exception escapes.
\<close>

lemma onstop_callback_throws:
  "onstop (handleVoiceMessage False)
     (ResponseJson (JObject [(text_key, JString [0x79, 0x6F])]))
     (ondataavailable [0x1A] (startRecording Started initialVoiceRecorder),
      initialChatView\<lparr>wsRef := Some \<lparr>readyState = CONNECTING, sent = []\<rparr>\<rparr>)
   = (\<lparr>status = idle, error = Some stt_failed_message, chunksRef = [[0x1A]],
       streamRef = False, mediaRecorderRef = True\<rparr>,
      \<lparr>inputValue = [], isStreaming = True, streamingContent = [],
       wsRef = Some \<lparr>readyState = CONNECTING, sent = []\<rparr>,
       store = initialStore, consoleErrors = [], uncaught = []\<rparr>)"
  by (simp add: onstop_def onstop_begin_def onstop_finish_def handleVoiceMessage_def
      send_content_def ws_send_def ondataavailable_def startRecording_def
      startRecording_begin_def startRecording_finish_def initialVoiceRecorder_def
      initialChatView_def text_key_def trim_def isWhiteSpace_def truthy_def Let_def)

text \<open>
  When the stream is granted and \<open>new MediaRecorder\<close> throws, the stream stays in
  \<open>streamRef\<close>; when \<open>start\<close> throws, the recorder stays in \<open>mediaRecorderRef\<close> as well.
\<close>

lemma startRecording_failures:
  "startRecording AccessDenied initialVoiceRecorder
     = \<lparr>status = idle, error = Some microphone_message, chunksRef = [],
        streamRef = False, mediaRecorderRef = False\<rparr>"
  "startRecording RecorderFails initialVoiceRecorder
     = \<lparr>status = idle, error = Some microphone_message, chunksRef = [],
        streamRef = True, mediaRecorderRef = False\<rparr>"
  "startRecording StartFails initialVoiceRecorder
     = \<lparr>status = idle, error = Some microphone_message, chunksRef = [],
        streamRef = True, mediaRecorderRef = True\<rparr>"
  by (simp_all add: startRecording_def startRecording_begin_def startRecording_finish_def
      initialVoiceRecorder_def)

text \<open>
  A release of the button before the microphone has answered finds the status idle and
  stops nothing: the recording starts afterwards and keeps running, with no request
  pending.  A press in that state starts nothing (the status is not idle), and the next
  release stops the recording.
\<close>

lemma release_before_answer:
  "status (recorder (run [MouseDown, MouseUp, MicrophoneAnswer Started] initialClient))
     = recording
   \<and> recorderActive (run [MouseDown, MouseUp, MicrophoneAnswer Started] initialClient)
   \<and> pendingStt (run [MouseDown, MouseUp, MicrophoneAnswer Started] initialClient) = []
   \<and> run [MouseDown, MouseUp, MicrophoneAnswer Started, MouseDown] initialClient
     = run [MouseDown, MouseUp, MicrophoneAnswer Started] initialClient
   \<and> pendingStt (run [MouseDown, MouseUp, MicrophoneAnswer Started, DataAvailable [0x1A],
        MouseUp] initialClient) = [False]"
  by (simp add: initialClient_def initialChatView_def initialVoiceRecorder_def
      startRecording_begin_def startRecording_finish_def ondataavailable_def
      onstop_begin_def Let_def)

section \<open>Threshold-triggered compression\<close>












section \<open>The WAV file\<close>

lemma write_bytes_zeros:
  "off = length pre \<Longrightarrow> length bs \<le> m \<Longrightarrow>
     write_bytes off bs (pre @ replicate m 0) = Some ((pre @ bs) @ replicate (m - length bs) 0)"
  by (simp add: write_bytes_def)

lemma writeString_zeros:
  "off = length pre \<Longrightarrow> length s \<le> m \<Longrightarrow>
     writeString (pre @ replicate m 0) off s
       = Some ((pre @ map ucast s) @ replicate (m - length s) 0)"
proof (induction s arbitrary: pre off m)
  case Nil
  then show ?case by simp
next
  case (Cons c cs)
  have w: "setUint8 off (unat c) (pre @ replicate m 0)
      = Some ((pre @ [ucast c]) @ replicate (m - 1) 0)"
    using Cons.prems by (simp add: setUint8_def write_bytes_zeros)
  have "writeString ((pre @ [ucast c]) @ replicate (m - 1) 0) (off + 1) cs
      = Some (((pre @ [ucast c]) @ map ucast cs) @ replicate (m - 1 - length cs) 0)"
    using Cons.prems by (intro Cons.IH) simp_all
  then show ?case using w by simp
qed

lemma length_bytes [simp]:
  "length (uint16_bytes v) = 2" "length (uint32_bytes v) = 4" "length (int16_bytes x) = 2"
  by (simp_all add: uint16_bytes_def uint32_bytes_def int16_bytes_def)

lemma writeSamples_zeros:
  "off = length pre \<Longrightarrow> m = 2 * length xs \<Longrightarrow>
     writeSamples off xs (pre @ replicate m 0)
       = Some (pre @ concat (map sample_bytes xs))"
proof (induction xs arbitrary: pre off m)
  case Nil
  then show ?case by simp
next
  case (Cons x xs)
  have m2: "length (sample_bytes x) \<le> m" "m - length (sample_bytes x) = 2 * length xs"
    using Cons.prems by (simp_all add: sample_bytes_def)
  have w: "setInt16 off (scaled (clamp x)) (pre @ replicate m 0)
      = Some ((pre @ sample_bytes x) @ replicate (2 * length xs) 0)"
    unfolding setInt16_def sample_bytes_def [symmetric]
    using write_bytes_zeros [OF Cons.prems(1) m2(1)] m2(2) by simp
  have "writeSamples (off + 2) xs ((pre @ sample_bytes x) @ replicate (2 * length xs) 0)
      = Some ((pre @ sample_bytes x) @ concat (map sample_bytes xs))"
    using Cons.prems by (intro Cons.IH) (simp_all add: sample_bytes_def)
  then show ?case using w by (simp add: Let_def)
qed

lemma setUint32_zeros:
  "off = length pre \<Longrightarrow> 4 \<le> m \<Longrightarrow>
     setUint32 off v (pre @ replicate m 0) = Some ((pre @ uint32_bytes v) @ replicate (m - 4) 0)"
  using write_bytes_zeros [of off pre "uint32_bytes v" m] by (simp add: setUint32_def)

lemma setUint16_zeros:
  "off = length pre \<Longrightarrow> 2 \<le> m \<Longrightarrow>
     setUint16 off v (pre @ replicate m 0) = Some ((pre @ uint16_bytes v) @ replicate (m - 2) 0)"
  using write_bytes_zeros [of off pre "uint16_bytes v" m] by (simp add: setUint16_def)

lemma length_wav_header [simp]: "length (wav_header r n) = 44"
  by (simp add: wav_header_def)

lemma header_run:
  "(let numChannels = 1;
          sampleRate = sampleRate buffer;
          format = 1;
          bitDepth = 16;
          data = channel0 buffer;
          dataLength = length data * (bitDepth div 8);
          headerLength = 44;
          totalLength = headerLength + dataLength;
          arrayBuffer = replicate totalLength 0
      in do {
        view \<leftarrow> writeString arrayBuffer 0 [0x52, 0x49, 0x46, 0x46];
        view \<leftarrow> setUint32 4 (totalLength - 8) view;
        view \<leftarrow> writeString view 8 [0x57, 0x41, 0x56, 0x45];
        view \<leftarrow> writeString view 12 [0x66, 0x6D, 0x74, 0x20];
        view \<leftarrow> setUint32 16 16 view;
        view \<leftarrow> setUint16 20 format view;
        view \<leftarrow> setUint16 22 numChannels view;
        view \<leftarrow> setUint32 24 sampleRate view;
        view \<leftarrow> setUint32 28 (sampleRate * numChannels * (bitDepth div 8)) view;
        view \<leftarrow> setUint16 32 (numChannels * (bitDepth div 8)) view;
        view \<leftarrow> setUint16 34 bitDepth view;
        view \<leftarrow> writeString view 36 [0x64, 0x61, 0x74, 0x61];
        view \<leftarrow> setUint32 40 dataLength view;
        k data view
      })
   = k (channel0 buffer)
       (wav_header (sampleRate buffer) (length (channel0 buffer))
        @ replicate (2 * length (channel0 buffer)) 0)"
  by (simp add: Let_def wav_header_def setUint8_def setUint16_def setUint32_def write_bytes_def
        uint16_bytes_def uint32_bytes_def mult.commute)

lemma audioBufferToWav_eq:
  "audioBufferToWav buffer
     = Some (wav_header (sampleRate buffer) (length (channel0 buffer))
             @ concat (map sample_bytes (channel0 buffer)))"
proof -
  have "audioBufferToWav buffer
      = writeSamples 44 (channel0 buffer)
          (wav_header (sampleRate buffer) (length (channel0 buffer))
           @ replicate (2 * length (channel0 buffer)) 0)"
    unfolding audioBufferToWav_def by (rule header_run)
  also have "\<dots> = Some (wav_header (sampleRate buffer) (length (channel0 buffer))
             @ concat (map sample_bytes (channel0 buffer)))"
    by (rule writeSamples_zeros) simp_all
  finally show ?thesis .
qed

lemma le32_value:
  fixes v :: nat
  shows "v mod 256 + 256 * (v div 256 mod 256) + 65536 * (v div 65536 mod 256)
         + 16777216 * (v div 16777216 mod 256) = v mod 4294967296"
proof -
  have a: "v mod 4294967296 = 256 * (v div 256 mod 16777216) + v mod 256"
    using mod_mult2_eq [of v 256 16777216] by simp
  have d1: "v div 256 div 256 = v div 65536"
    using div_mult2_eq [of v 256 256] by simp
  have d2: "v div 65536 div 256 = v div 16777216"
    using div_mult2_eq [of v 65536 256] by simp
  have b: "v div 256 mod 16777216 = 256 * (v div 65536 mod 65536) + v div 256 mod 256"
    using mod_mult2_eq [of "v div 256" 256 65536] by (simp add: d1)
  have c: "v div 65536 mod 65536 = 256 * (v div 16777216 mod 256) + v div 65536 mod 256"
    using mod_mult2_eq [of "v div 65536" 256 256] by (simp add: d2)
  show ?thesis
    unfolding a b c by simp
qed

lemma unat_byte: "unat (of_nat v :: 8 word) = v mod 256"
  by (simp add: unat_of_nat)

lemma getUint32_uint32_bytes:
  "length pre = off \<Longrightarrow> getUint32 off (pre @ uint32_bytes v @ post) = Some (v mod 4294967296)"
  using le32_value [of v]
  by (simp add: getUint32_def uint32_bytes_def nth_append unat_byte)

lemma le16_value:
  fixes v :: nat
  shows "v < 65536 \<Longrightarrow> v mod 256 + 256 * (v div 256 mod 256) = v"
  by simp

lemma ToInt16_range: "- 32768 \<le> ToInt16 y \<and> ToInt16 y \<le> 32767"
proof (cases y)
  case (Finite q)
  have "0 \<le> trunc q mod 65536" "trunc q mod 65536 < 65536" by simp_all
  then show ?thesis using Finite by (auto simp: Let_def)
qed simp_all

lemma int16_wrap:
  fixes t :: int
  assumes "- 32768 \<le> t" "t \<le> 32767"
  shows "(if t mod 65536 \<ge> 32768 then t mod 65536 - 65536 else t mod 65536) = t"
proof (cases "t < 0")
  case True
  have "(t + 65536) mod 65536 = t + 65536"
    using assms True by (intro mod_pos_pos_trivial) simp_all
  then have "t mod 65536 = t + 65536" by simp
  then show ?thesis using assms True by simp
next
  case False
  have "t mod 65536 = t"
    using assms False by (intro mod_pos_pos_trivial) simp_all
  then show ?thesis using assms by simp
qed

lemma getInt16_int16_bytes:
  "length pre = off \<Longrightarrow> getInt16 off (pre @ int16_bytes y @ post) = Some (ToInt16 y)"
proof -
  assume l: "length pre = off"
  define v where "v = nat (ToInt16 y mod 65536)"
  have v: "v < 65536" unfolding v_def by simp
  have "int (v mod 256) + 256 * int (v div 256 mod 256)
      = int (v mod 256 + 256 * (v div 256 mod 256))"
    by simp
  also have "\<dots> = int v"
    by (simp only: le16_value [OF v])
  finally have u: "int (unat (of_nat v :: 8 word))
      + 256 * int (unat (of_nat (v div 256) :: 8 word)) = int v"
    by (simp only: unat_byte)
  have iv: "int v = ToInt16 y mod 65536" unfolding v_def by simp
  have r: "(if ToInt16 y mod 65536 \<ge> 32768 then ToInt16 y mod 65536 - 65536
           else ToInt16 y mod 65536) = ToInt16 y"
    using ToInt16_range [of y] by (intro int16_wrap) simp_all
  show ?thesis
    using l u r
    by (simp add: getInt16_def int16_bytes_def uint16_bytes_def nth_append Let_def iv
        flip: v_def)
qed

lemma length_concat_samples [simp]:
  "length (concat (map sample_bytes xs)) = 2 * length xs"
  by (induction xs) (simp_all add: sample_bytes_def)

lemma getInt16_sample:
  assumes "i < length xs" "length pre = off"
  shows "getInt16 (off + 2 * i) (pre @ concat (map sample_bytes xs))
           = Some (ToInt16 (scaled (clamp (xs ! i))))"
proof -
  have xs: "xs = take i xs @ xs ! i # drop (Suc i) xs"
    using assms(1) by (simp add: id_take_nth_drop)
  have "pre @ concat (map sample_bytes xs)
      = (pre @ concat (map sample_bytes (take i xs)))
        @ int16_bytes (scaled (clamp (xs ! i)))
        @ concat (map sample_bytes (drop (Suc i) xs))"
    by (subst xs) (simp add: sample_bytes_def)
  moreover have "length (pre @ concat (map sample_bytes (take i xs))) = off + 2 * i"
    using assms by simp
  ultimately show ?thesis
    by (simp only: getInt16_int16_bytes)
qed

lemma clamp_cases:
  "clamp NaN = NaN"
  "clamp PosInfinity = Finite 1"
  "clamp NegInfinity = Finite (- 1)"
  "clamp (Finite q) = Finite (max (- 1) (min 1 q))"
  by (simp_all add: clamp_def)

lemma clamp_interval:
  "x \<noteq> NaN \<Longrightarrow> \<exists>c. clamp x = Finite c \<and> - 1 \<le> c \<and> c \<le> 1"
  by (cases x) (simp_all add: clamp_cases)

lemma trunc_scaled_range:
  assumes "- 1 \<le> c" "c \<le> 1"
  shows "- 32768 \<le> trunc (if c < 0 then c * 32768 else c * 32767)"
    and "trunc (if c < 0 then c * 32768 else c * 32767) \<le> 32767"
proof -
  show "- 32768 \<le> trunc (if c < 0 then c * 32768 else c * 32767)"
  proof (cases "c < 0")
    case True
    have "of_int (- 32768) \<le> c * 32768" using assms by simp
    then have "- 32768 \<le> \<lceil>c * 32768\<rceil>" by (simp only: le_ceiling_iff)
    then show ?thesis using True by (simp add: trunc_def mult_less_0_iff)
  next
    case False
    have "0 \<le> c * 32767" using False by simp
    then have "0 \<le> \<lfloor>c * 32767\<rfloor>" by simp
    then show ?thesis using False by (simp add: trunc_def mult_less_0_iff)
  qed
  show "trunc (if c < 0 then c * 32768 else c * 32767) \<le> 32767"
  proof (cases "c < 0")
    case True
    have "c * 32768 \<le> 0" using True by simp
    then have "\<lceil>c * 32768\<rceil> \<le> 0" by (simp add: ceiling_le_iff)
    then show ?thesis using True by (simp add: trunc_def mult_less_0_iff)
  next
    case False
    have "c * 32767 \<le> of_int 32767" using assms by simp
    then have "\<lfloor>c * 32767\<rfloor> \<le> 32767" by (simp add: floor_le_iff)
    then show ?thesis using False by (simp add: trunc_def mult_less_0_iff)
  qed
qed

lemma ToInt16_scaled:
  assumes "- 1 \<le> c" "c \<le> 1"
  shows "ToInt16 (scaled (Finite c)) = trunc (if c < 0 then c * 32768 else c * 32767)"
proof -
  have "ToInt16 (Finite (if c < 0 then c * 32768 else c * 32767))
      = trunc (if c < 0 then c * 32768 else c * 32767)"
    unfolding ToInt16.simps Let_def
    using trunc_scaled_range [OF assms] by (intro int16_wrap)
  then show ?thesis by (cases "c < 0") (simp_all add: scaled_def Let_def)
qed

lemma ToInt16_scaled_NaN: "ToInt16 (scaled (clamp NaN)) = 0"
  by (simp add: clamp_cases scaled_def)

lemma header_sizes:
  "audioBufferToWav buffer \<bind> getUint32 4
     = Some ((36 + 2 * length (channel0 buffer)) mod 4294967296)"
  "audioBufferToWav buffer \<bind> getUint32 40
     = Some ((2 * length (channel0 buffer)) mod 4294967296)"
proof -
  define n where "n = length (channel0 buffer)"
  define r where "r = sampleRate buffer"
  define rest where "rest = concat (map sample_bytes (channel0 buffer))"
  have b4: "wav_header r n @ rest = [0x52, 0x49, 0x46, 0x46] @ uint32_bytes (36 + 2 * n) @
      ([0x57, 0x41, 0x56, 0x45, 0x66, 0x6D, 0x74, 0x20] @ uint32_bytes 16 @
       [1, 0, 1, 0] @ uint32_bytes r @ uint32_bytes (r * 2) @
       [2, 0, 16, 0, 0x64, 0x61, 0x74, 0x61] @ uint32_bytes (2 * n) @ rest)"
    by (simp add: wav_header_def)
  have g4: "getUint32 4 (wav_header r n @ rest) = Some ((36 + 2 * n) mod 4294967296)"
    by (subst b4, rule getUint32_uint32_bytes) simp
  have b40: "wav_header r n @ rest = ([0x52, 0x49, 0x46, 0x46] @ uint32_bytes (36 + 2 * n) @
       [0x57, 0x41, 0x56, 0x45, 0x66, 0x6D, 0x74, 0x20] @ uint32_bytes 16 @
       [1, 0, 1, 0] @ uint32_bytes r @ uint32_bytes (r * 2) @
       [2, 0, 16, 0, 0x64, 0x61, 0x74, 0x61]) @ uint32_bytes (2 * n) @ rest"
    by (simp add: wav_header_def)
  have g40: "getUint32 40 (wav_header r n @ rest) = Some ((2 * n) mod 4294967296)"
    by (subst b40, rule getUint32_uint32_bytes) simp
  show "audioBufferToWav buffer \<bind> getUint32 4
     = Some ((36 + 2 * length (channel0 buffer)) mod 4294967296)"
    using g4 by (simp add: audioBufferToWav_eq n_def r_def rest_def)
  show "audioBufferToWav buffer \<bind> getUint32 40
     = Some ((2 * length (channel0 buffer)) mod 4294967296)"
    using g40 by (simp add: audioBufferToWav_eq n_def r_def rest_def)
qed

lemma sample_value:
  "ToInt16 (scaled (clamp NaN)) = 0"
  "ToInt16 (scaled (clamp PosInfinity)) = 32767"
  "ToInt16 (scaled (clamp NegInfinity)) = - 32768"
  "ToInt16 (scaled (clamp (Finite q)))
     = (if max (- 1) (min 1 q) < 0 then \<lceil>max (- 1) (min 1 q) * 32768\<rceil>
        else \<lfloor>max (- 1) (min 1 q) * 32767\<rfloor>)"
proof -
  show "ToInt16 (scaled (clamp NaN)) = 0"
    by (simp add: clamp_cases scaled_def)
  have one: "ToInt16 (scaled (Finite 1)) = trunc (if (1::rat) < 0 then 1 * 32768 else 1 * 32767)"
    by (rule ToInt16_scaled) simp_all
  show "ToInt16 (scaled (clamp PosInfinity)) = 32767"
    using one by (simp add: clamp_cases trunc_def)
  have mone: "ToInt16 (scaled (Finite (- 1)))
      = trunc (if (- 1::rat) < 0 then - 1 * 32768 else - 1 * 32767)"
    by (rule ToInt16_scaled) simp_all
  show "ToInt16 (scaled (clamp NegInfinity)) = - 32768"
    using mone by (simp add: clamp_cases trunc_def)
  define c where "c = max (- 1) (min 1 q)"
  have c: "- 1 \<le> c" "c \<le> 1"
    by (simp_all add: c_def)
  have "ToInt16 (scaled (Finite c)) = trunc (if c < 0 then c * 32768 else c * 32767)"
    using c by (rule ToInt16_scaled)
  also have "\<dots> = (if c < 0 then \<lceil>c * 32768\<rceil> else \<lfloor>c * 32767\<rfloor>)"
    by (simp add: trunc_def mult_less_0_iff)
  finally have "ToInt16 (scaled (Finite c))
      = (if c < 0 then \<lceil>c * 32768\<rceil> else \<lfloor>c * 32767\<rfloor>)" .
  then show "ToInt16 (scaled (clamp (Finite q)))
     = (if max (- 1) (min 1 q) < 0 then \<lceil>max (- 1) (min 1 q) * 32768\<rceil>
        else \<lfloor>max (- 1) (min 1 q) * 32767\<rfloor>)"
    by (simp only: clamp_cases c_def)
qed

text \<open>
  Claim C10, as the code has it.  For every buffer with \<open>n\<close> samples in channel 0 the
  encoder returns a buffer of exactly \<open>44 + 2 n\<close> bytes.  The 32-bit fields at offsets 4
  and 40 hold \<open>36 + 2 n\<close> and \<open>2 n\<close> reduced modulo \<open>2\<^sup>3\<^sup>2\<close>, hence these numbers
  themselves whenever \<open>36 + 2 n < 2\<^sup>3\<^sup>2\<close>.  Sample \<open>i\<close> is stored at offset \<open>44 + 2 i\<close> as
  a little-endian signed 16-bit integer between \<open>-32768\<close> and \<open>32767\<close>.  A finite sample
  \<open>q\<close> is first clamped to \<open>c = max (-1) (min 1 q)\<close>, and the integer stored is
  \<open>c * 0x8000\<close> rounded up when \<open>c\<close> is negative and \<open>c * 0x7fff\<close> rounded down
  otherwise (that is, truncated towards zero); plus and minus infinity are clamped to 1
  and -1 and stored as 32767 and -32768; a \<open>NaN\<close> sample stays \<open>NaN\<close> under the clamp and
  is stored as 0.
\<close>

theorem wav_layout:
  "\<exists>bytes. audioBufferToWav buffer = Some bytes
     \<and> length bytes = 44 + 2 * length (channel0 buffer)
     \<and> getUint32 4 bytes = Some ((36 + 2 * length (channel0 buffer)) mod 4294967296)
     \<and> getUint32 40 bytes = Some ((2 * length (channel0 buffer)) mod 4294967296)
     \<and> (36 + 2 * length (channel0 buffer) < 4294967296 \<longrightarrow>
          getUint32 4 bytes = Some (36 + 2 * length (channel0 buffer))
        \<and> getUint32 40 bytes = Some (2 * length (channel0 buffer)))
     \<and> (\<forall>i < length (channel0 buffer).
          (\<exists>v. getInt16 (44 + 2 * i) bytes = Some v \<and> - 32768 \<le> v \<and> v \<le> 32767)
        \<and> (\<forall>q. channel0 buffer ! i = Finite q \<longrightarrow>
               clamp (channel0 buffer ! i) = Finite (max (- 1) (min 1 q))
             \<and> getInt16 (44 + 2 * i) bytes
                 = Some (if max (- 1) (min 1 q) < 0 then \<lceil>max (- 1) (min 1 q) * 32768\<rceil>
                         else \<lfloor>max (- 1) (min 1 q) * 32767\<rfloor>))
        \<and> (channel0 buffer ! i = PosInfinity \<longrightarrow>
               clamp (channel0 buffer ! i) = Finite 1
             \<and> getInt16 (44 + 2 * i) bytes = Some 32767)
        \<and> (channel0 buffer ! i = NegInfinity \<longrightarrow>
               clamp (channel0 buffer ! i) = Finite (- 1)
             \<and> getInt16 (44 + 2 * i) bytes = Some (- 32768))
        \<and> (channel0 buffer ! i = NaN \<longrightarrow>
               clamp (channel0 buffer ! i) = NaN
             \<and> getInt16 (44 + 2 * i) bytes = Some 0))"
proof -
  define n where "n = length (channel0 buffer)"
  define r where "r = sampleRate buffer"
  define bytes where "bytes = wav_header r n @ concat (map sample_bytes (channel0 buffer))"
  have e: "audioBufferToWav buffer = Some bytes"
    unfolding bytes_def n_def r_def by (rule audioBufferToWav_eq)
  have l: "length bytes = 44 + 2 * n"
    by (simp add: bytes_def n_def)
  have g4: "getUint32 4 bytes = Some ((36 + 2 * n) mod 4294967296)"
    using header_sizes(1) [of buffer] by (simp add: e n_def)
  have g40: "getUint32 40 bytes = Some ((2 * n) mod 4294967296)"
    using header_sizes(2) [of buffer] by (simp add: e n_def)
  have small: "36 + 2 * n < 4294967296 \<longrightarrow>
      getUint32 4 bytes = Some (36 + 2 * n) \<and> getUint32 40 bytes = Some (2 * n)"
    by (simp add: g4 g40)
  have samples: "\<forall>i < n.
          (\<exists>v. getInt16 (44 + 2 * i) bytes = Some v \<and> - 32768 \<le> v \<and> v \<le> 32767)
        \<and> (\<forall>q. channel0 buffer ! i = Finite q \<longrightarrow>
               clamp (channel0 buffer ! i) = Finite (max (- 1) (min 1 q))
             \<and> getInt16 (44 + 2 * i) bytes
                 = Some (if max (- 1) (min 1 q) < 0 then \<lceil>max (- 1) (min 1 q) * 32768\<rceil>
                         else \<lfloor>max (- 1) (min 1 q) * 32767\<rfloor>))
        \<and> (channel0 buffer ! i = PosInfinity \<longrightarrow>
               clamp (channel0 buffer ! i) = Finite 1
             \<and> getInt16 (44 + 2 * i) bytes = Some 32767)
        \<and> (channel0 buffer ! i = NegInfinity \<longrightarrow>
               clamp (channel0 buffer ! i) = Finite (- 1)
             \<and> getInt16 (44 + 2 * i) bytes = Some (- 32768))
        \<and> (channel0 buffer ! i = NaN \<longrightarrow>
               clamp (channel0 buffer ! i) = NaN
             \<and> getInt16 (44 + 2 * i) bytes = Some 0)"
  proof (intro allI impI)
    fix i assume i: "i < n"
    have a: "getInt16 (44 + 2 * i) bytes
        = Some (ToInt16 (scaled (clamp (channel0 buffer ! i))))"
      unfolding bytes_def using i by (intro getInt16_sample) (simp_all add: n_def)
    have rng: "\<exists>v. getInt16 (44 + 2 * i) bytes = Some v \<and> - 32768 \<le> v \<and> v \<le> 32767"
      using a ToInt16_range [of "scaled (clamp (channel0 buffer ! i))"] by simp
    have fin: "\<forall>q. channel0 buffer ! i = Finite q \<longrightarrow>
               clamp (channel0 buffer ! i) = Finite (max (- 1) (min 1 q))
             \<and> getInt16 (44 + 2 * i) bytes
                 = Some (if max (- 1) (min 1 q) < 0 then \<lceil>max (- 1) (min 1 q) * 32768\<rceil>
                         else \<lfloor>max (- 1) (min 1 q) * 32767\<rfloor>)"
    proof (intro allI impI)
      fix q assume q: "channel0 buffer ! i = Finite q"
      have "getInt16 (44 + 2 * i) bytes = Some (ToInt16 (scaled (clamp (Finite q))))"
        using a by (simp only: q)
      then have g: "getInt16 (44 + 2 * i) bytes
                 = Some (if max (- 1) (min 1 q) < 0 then \<lceil>max (- 1) (min 1 q) * 32768\<rceil>
                         else \<lfloor>max (- 1) (min 1 q) * 32767\<rfloor>)"
        by (simp only: sample_value(4))
      have c: "clamp (channel0 buffer ! i) = Finite (max (- 1) (min 1 q))"
        by (simp only: q clamp_cases(4))
      from c g show "clamp (channel0 buffer ! i) = Finite (max (- 1) (min 1 q))
             \<and> getInt16 (44 + 2 * i) bytes
                 = Some (if max (- 1) (min 1 q) < 0 then \<lceil>max (- 1) (min 1 q) * 32768\<rceil>
                         else \<lfloor>max (- 1) (min 1 q) * 32767\<rfloor>)"
        by (rule conjI)
    qed
    have pinf: "channel0 buffer ! i = PosInfinity \<longrightarrow>
               clamp (channel0 buffer ! i) = Finite 1
             \<and> getInt16 (44 + 2 * i) bytes = Some 32767"
    proof
      assume q: "channel0 buffer ! i = PosInfinity"
      have "getInt16 (44 + 2 * i) bytes = Some (ToInt16 (scaled (clamp PosInfinity)))"
        using a by (simp only: q)
      then have g: "getInt16 (44 + 2 * i) bytes = Some 32767"
        by (simp only: sample_value(2))
      have c: "clamp (channel0 buffer ! i) = Finite 1"
        by (simp only: q clamp_cases(2))
      from c g show "clamp (channel0 buffer ! i) = Finite 1
             \<and> getInt16 (44 + 2 * i) bytes = Some 32767"
        by (rule conjI)
    qed
    have ninf: "channel0 buffer ! i = NegInfinity \<longrightarrow>
               clamp (channel0 buffer ! i) = Finite (- 1)
             \<and> getInt16 (44 + 2 * i) bytes = Some (- 32768)"
    proof
      assume q: "channel0 buffer ! i = NegInfinity"
      have "getInt16 (44 + 2 * i) bytes = Some (ToInt16 (scaled (clamp NegInfinity)))"
        using a by (simp only: q)
      then have g: "getInt16 (44 + 2 * i) bytes = Some (- 32768)"
        by (simp only: sample_value(3))
      have c: "clamp (channel0 buffer ! i) = Finite (- 1)"
        by (simp only: q clamp_cases(3))
      from c g show "clamp (channel0 buffer ! i) = Finite (- 1)
             \<and> getInt16 (44 + 2 * i) bytes = Some (- 32768)"
        by (rule conjI)
    qed
    have nan: "channel0 buffer ! i = NaN \<longrightarrow>
               clamp (channel0 buffer ! i) = NaN
             \<and> getInt16 (44 + 2 * i) bytes = Some 0"
    proof
      assume q: "channel0 buffer ! i = NaN"
      have "getInt16 (44 + 2 * i) bytes = Some (ToInt16 (scaled (clamp NaN)))"
        using a by (simp only: q)
      then have g: "getInt16 (44 + 2 * i) bytes = Some 0"
        by (simp only: sample_value(1))
      have c: "clamp (channel0 buffer ! i) = NaN"
        by (simp only: q clamp_cases(1))
      from c g show "clamp (channel0 buffer ! i) = NaN
             \<and> getInt16 (44 + 2 * i) bytes = Some 0"
        by (rule conjI)
    qed
    show "(\<exists>v. getInt16 (44 + 2 * i) bytes = Some v \<and> - 32768 \<le> v \<and> v \<le> 32767)
        \<and> (\<forall>q. channel0 buffer ! i = Finite q \<longrightarrow>
               clamp (channel0 buffer ! i) = Finite (max (- 1) (min 1 q))
             \<and> getInt16 (44 + 2 * i) bytes
                 = Some (if max (- 1) (min 1 q) < 0 then \<lceil>max (- 1) (min 1 q) * 32768\<rceil>
                         else \<lfloor>max (- 1) (min 1 q) * 32767\<rfloor>))
        \<and> (channel0 buffer ! i = PosInfinity \<longrightarrow>
               clamp (channel0 buffer ! i) = Finite 1
             \<and> getInt16 (44 + 2 * i) bytes = Some 32767)
        \<and> (channel0 buffer ! i = NegInfinity \<longrightarrow>
               clamp (channel0 buffer ! i) = Finite (- 1)
             \<and> getInt16 (44 + 2 * i) bytes = Some (- 32768))
        \<and> (channel0 buffer ! i = NaN \<longrightarrow>
               clamp (channel0 buffer ! i) = NaN
             \<and> getInt16 (44 + 2 * i) bytes = Some 0)"
      by (intro conjI) (rule rng fin pinf ninf nan)+
  qed
  show ?thesis
    using e l g4 g40 small samples unfolding n_def by blast
qed

theorem wav_layout_witness:
  "audioBufferToWav
     \<lparr>sampleRate = 16000,
     channel0 = [Finite (1 / 2), Finite (- 2), NaN, Finite (- 3 / 65536)], otherChannels = []\<rparr>
   = Some [0x52, 0x49, 0x46, 0x46, 44, 0, 0, 0, 0x57, 0x41, 0x56, 0x45,
           0x66, 0x6D, 0x74, 0x20, 16, 0, 0, 0, 1, 0, 1, 0,
           0x80, 0x3E, 0, 0, 0x00, 0x7D, 0, 0, 2, 0, 16, 0,
           0x64, 0x61, 0x74, 0x61, 8, 0, 0, 0,
           0xFF, 0x3F, 0x00, 0x80, 0, 0, 0xFF, 0xFF]
   \<and> audioBufferToWav
     \<lparr>sampleRate = 16000,
     channel0 = [Finite (1 / 2), Finite (- 2), NaN, Finite (- 3 / 65536)], otherChannels = []\<rparr>
       \<bind> getUint32 4 = Some 44
   \<and> audioBufferToWav
     \<lparr>sampleRate = 16000,
     channel0 = [Finite (1 / 2), Finite (- 2), NaN, Finite (- 3 / 65536)], otherChannels = []\<rparr>
       \<bind> getUint32 40 = Some 8
   \<and> audioBufferToWav
     \<lparr>sampleRate = 16000,
     channel0 = [Finite (1 / 2), Finite (- 2), NaN, Finite (- 3 / 65536)], otherChannels = []\<rparr>
       \<bind> getInt16 44 = Some 16383
   \<and> audioBufferToWav
     \<lparr>sampleRate = 16000,
     channel0 = [Finite (1 / 2), Finite (- 2), NaN, Finite (- 3 / 65536)], otherChannels = []\<rparr>
       \<bind> getInt16 46 = Some (- 32768)
   \<and> audioBufferToWav
     \<lparr>sampleRate = 16000,
     channel0 = [Finite (1 / 2), Finite (- 2), NaN, Finite (- 3 / 65536)], otherChannels = []\<rparr>
       \<bind> getInt16 48 = Some 0
   \<and> audioBufferToWav
     \<lparr>sampleRate = 16000,
     channel0 = [Finite (1 / 2), Finite (- 2), NaN, Finite (- 3 / 65536)], otherChannels = []\<rparr>
       \<bind> getInt16 50 = Some (- 1)"
proof -
  define b where "b = \<lparr>sampleRate = 16000,
     channel0 = [Finite (1 / 2), Finite (- 2), NaN, Finite (- 3 / 65536)], otherChannels = []\<rparr>"
  have len: "length (channel0 b) = 4"
    by (simp add: b_def)
  have x: "channel0 b ! 0 = Finite (1 / 2)" "channel0 b ! 1 = Finite (- 2)"
    "channel0 b ! 2 = NaN" "channel0 b ! 3 = Finite (- 3 / 65536)"
    by (simp_all add: b_def)
  from wav_layout [of b] obtain bytes where
    e: "audioBufferToWav b = Some bytes"
    and small: "36 + 2 * length (channel0 b) < 4294967296 \<longrightarrow>
          getUint32 4 bytes = Some (36 + 2 * length (channel0 b))
        \<and> getUint32 40 bytes = Some (2 * length (channel0 b))"
    and s: "\<forall>i < length (channel0 b).
          (\<forall>q. channel0 b ! i = Finite q \<longrightarrow>
             getInt16 (44 + 2 * i) bytes
                 = Some (if max (- 1) (min 1 q) < 0 then \<lceil>max (- 1) (min 1 q) * 32768\<rceil>
                         else \<lfloor>max (- 1) (min 1 q) * 32767\<rfloor>))
        \<and> (channel0 b ! i = NaN \<longrightarrow> getInt16 (44 + 2 * i) bytes = Some 0)"
    by blast
  have g: "getUint32 4 bytes = Some 44" "getUint32 40 bytes = Some 8"
    using small by (simp_all add: len)
  have i: "0 < length (channel0 b)" "1 < length (channel0 b)" "2 < length (channel0 b)"
    "3 < length (channel0 b)"
    by (simp_all add: len)
  have s0: "getInt16 44 bytes = Some 16383"
    using s [THEN spec, of 0, THEN mp, OF i(1), THEN conjunct1, THEN spec, of "1 / 2",
        THEN mp, OF x(1)]
    by (simp add: floor_eq_iff)
  have s1: "getInt16 46 bytes = Some (- 32768)"
    using s [THEN spec, of 1, THEN mp, OF i(2), THEN conjunct1, THEN spec, of "- 2",
        THEN mp, OF x(2)]
    by simp
  have s2: "getInt16 48 bytes = Some 0"
    using s [THEN spec, of 2, THEN mp, OF i(3), THEN conjunct2, THEN mp, OF x(3)]
    by simp
  have s3: "getInt16 50 bytes = Some (- 1)"
    using s [THEN spec, of 3, THEN mp, OF i(4), THEN conjunct1, THEN spec, of "- 3 / 65536",
        THEN mp, OF x(4)]
    by (simp add: ceiling_eq_iff)
  have v0: "ToInt16 (scaled (clamp (Finite (1 / 2)))) = 16383"
    by (simp add: sample_value(4) floor_eq_iff)
  have v1: "ToInt16 (scaled (clamp (Finite (- 2)))) = - 32768"
    by (simp add: sample_value(4))
  have v2: "ToInt16 (scaled (clamp NaN)) = 0"
    by (simp add: sample_value(1))
  have v3: "ToInt16 (scaled (clamp (Finite (- (3 / 65536))))) = - 1"
    by (simp add: sample_value(4) ceiling_eq_iff)
  have ex: "audioBufferToWav b
   = Some [0x52, 0x49, 0x46, 0x46, 44, 0, 0, 0, 0x57, 0x41, 0x56, 0x45,
           0x66, 0x6D, 0x74, 0x20, 16, 0, 0, 0, 1, 0, 1, 0,
           0x80, 0x3E, 0, 0, 0x00, 0x7D, 0, 0, 2, 0, 16, 0,
           0x64, 0x61, 0x74, 0x61, 8, 0, 0, 0,
           0xFF, 0x3F, 0x00, 0x80, 0, 0, 0xFF, 0xFF]"
    by (simp add: audioBufferToWav_eq b_def wav_header_def uint32_bytes_def sample_bytes_def
        int16_bytes_def uint16_bytes_def v0 v1 v2 v3)
  show ?thesis
    using e ex g s0 s1 s2 s3 unfolding b_def by simp
qed

text \<open>
  The claim as stated fails at two kinds of buffers.  A \<open>NaN\<close> sample is not clamped
  into \<open>[-1, 1]\<close>: \<open>Math.min\<close> and \<open>Math.max\<close> return \<open>NaN\<close>, which is then stored as 0.
  And for \<open>2\<^sup>3\<^sup>1\<close> samples the 32-bit size fields wrap around: offset 4 records 36, not
  \<open>36 + 2\<^sup>3\<^sup>2\<close>, and offset 40 records 0.
\<close>

theorem wav_counterexample:
  "clamp (channel0 \<lparr>sampleRate = 16000, channel0 = [NaN], otherChannels = []\<rparr> ! 0) = NaN
   \<and> audioBufferToWav \<lparr>sampleRate = 16000, channel0 = [NaN], otherChannels = []\<rparr>
       \<bind> getInt16 44 = Some 0
   \<and> length (channel0 \<lparr>sampleRate = 16000, channel0 = replicate 2147483648 (Finite 0),
         otherChannels = []\<rparr>) = 2147483648
   \<and> audioBufferToWav \<lparr>sampleRate = 16000, channel0 = replicate 2147483648 (Finite 0),
         otherChannels = []\<rparr> \<bind> getUint32 4 = Some 36
   \<and> audioBufferToWav \<lparr>sampleRate = 16000, channel0 = replicate 2147483648 (Finite 0),
         otherChannels = []\<rparr> \<bind> getUint32 40 = Some 0"
proof -
  have nan: "audioBufferToWav \<lparr>sampleRate = 16000, channel0 = [NaN], otherChannels = []\<rparr>
       \<bind> getInt16 44 = Some 0"
    by (simp add: audioBufferToWav_eq wav_header_def uint32_bytes_def sample_bytes_def
        int16_bytes_def uint16_bytes_def clamp_def scaled_def getInt16_def)
  define b where "b = \<lparr>sampleRate = 16000, channel0 = replicate 2147483648 (Finite 0),
         otherChannels = []\<rparr>"
  have "audioBufferToWav b \<bind> getUint32 4 = Some 36"
    using header_sizes(1) [of b] by (simp add: b_def)
  moreover have "audioBufferToWav b \<bind> getUint32 40 = Some 0"
    using header_sizes(2) [of b] by (simp add: b_def)
  ultimately show ?thesis
    using nan unfolding b_def by (simp add: clamp_def)
qed

end
